theory Spec2Isabelle
  imports Main
begin

section \<open>Embedding of \<open>backend/src/core/models.ts\<close>\<close>

text \<open>
  The module resolves the embedding model for a (sector, provider) pair from an optional
  \<open>models.yml\<close>, with built-in defaults and a process-wide cache.

  Modelling decisions:
  \<^item> A JavaScript string is a \<open>string\<close>; one \<open>char\<close> stands for one code unit in the
    range 0 to 255.
  \<^item> The objects the module builds are plain objects: own properties and a prototype.
    A property read follows the prototype chain to \<open>Object.prototype\<close>, and an
    assignment to the name \<open>__proto__\<close> runs the setter of \<open>Object.prototype\<close>: it
    replaces the prototype when the value is an object and does nothing when the value is
    a string.
  \<^item> The module-level \<open>let cfg\<close>, the calls made to the \<open>fs\<close> module and the lines
    written to the console are fields of the record \<open>world\<close>, passed through every function.
  \<^item> What the module reads from outside is the record \<open>env\<close>: \<open>__dirname\<close>,
    \<open>process.cwd()\<close>, \<open>path.join\<close>, \<open>existsSync\<close>, \<open>readFileSync\<close>, and the
    built-in objects of the runtime (the data properties of \<open>Object.prototype\<close>, and the
    property reads on strings, numbers and built-in objects).
  \<^item> A thrown exception is the left injection of a sum.
\<close>

subsection \<open>String primitives of the JavaScript library\<close>

text \<open>
  White space as \<open>String.prototype.trim\<close> and the regular-expression class \<open>\s\<close> define
  it (the two sets coincide), for code units below 256: tab, line feed, vertical tab, form
  feed, carriage return, space and no-break space.
\<close>

definition is_space :: "char \<Rightarrow> bool" where
  "is_space c = (c = CHR 0x09 \<or> c = CHR 0x0A \<or> c = CHR 0x0B \<or> c = CHR 0x0C
     \<or> c = CHR 0x0D \<or> c = CHR 0x20 \<or> c = CHR 0xA0)"

text \<open>\<open>s.trim()\<close>\<close>

definition trim :: "string \<Rightarrow> string" where
  "trim s = rev (dropWhile is_space (rev (dropWhile is_space s)))"

text \<open>\<open>s.startsWith(p)\<close>\<close>

definition startsWith :: "string \<Rightarrow> string \<Rightarrow> bool" where
  "startsWith s p = (take (length p) s = p)"

text \<open>\<open>s.search(/\S/)\<close>: the index of the first character that is not white space, -1 if
  there is none.\<close>

fun search_nonspace :: "string \<Rightarrow> int" where
  "search_nonspace [] = - 1"
| "search_nonspace (c # cs) =
     (if is_space c then (let r = search_nonspace cs in if r < 0 then - 1 else r + 1)
      else 0)"

text \<open>\<open>s.split(sep)\<close> for a separator of one character: never the empty list.\<close>

fun split_str :: "char \<Rightarrow> string \<Rightarrow> string list" where
  "split_str sep [] = [[]]"
| "split_str sep (c # cs) =
     (if c = sep then [] # split_str sep cs
      else (case split_str sep cs of
              [] \<Rightarrow> [[c]]
            | p # ps \<Rightarrow> (c # p) # ps))"

text \<open>\<open>parts.join(sep)\<close> for a separator of one character.\<close>

fun join_str :: "char \<Rightarrow> string list \<Rightarrow> string" where
  "join_str sep [] = []"
| "join_str sep [p] = p"
| "join_str sep (p # q # ps) = p @ sep # join_str sep (q # ps)"

subsection \<open>Data model\<close>

text \<open>The own properties of a section object: provider to model name.\<close>

type_synonym sector_cfg = "string \<rightharpoonup> string"

text \<open>
  An object of the interface \<open>model_cfg\<close>. \<open>own_props\<close> are its own properties, each a
  section object whose prototype is \<open>Object.prototype\<close>. \<open>proto_obj\<close> is its prototype:
  \<open>None\<close> for \<open>Object.prototype\<close>, \<open>Some pm\<close> for an object \<open>{}\<close> that a header
  \<open>__proto__:\<close> put in its place, with the own properties \<open>pm\<close> and the prototype
  \<open>Object.prototype\<close>.
\<close>

record model_cfg =
  own_props :: "string \<rightharpoonup> sector_cfg"
  proto_obj :: "sector_cfg option"

text \<open>
  The values a property read of the module can produce. \<open>JObject sm\<close> is a plain object
  with the own properties \<open>sm\<close> and the prototype \<open>Object.prototype\<close>; \<open>JBuiltin n\<close> is
  the built-in object or function named \<open>n\<close>.
\<close>

datatype jsval =
  JUndefined | JNull | JStr string | JNum int | JObject sector_cfg | JBuiltin string

datatype error = FsError string | TypeError string

datatype fs_call = ExistsSync string | ReadFileSync string

text \<open>
  The three console lines of the module: \<open>console.warn\<close> (file not found),
  \<open>console.log\<close> (loaded, with the path and the number of sectors) and
  \<open>console.error\<close> (failed, with the error).
\<close>

datatype diag = Warn_not_found | Log_loaded string nat | Error_failed error

record world =
  cfg :: "model_cfg option"
  fs_calls :: "fs_call list"
  console :: "diag list"

text \<open>
  \<open>cwd\<close> is the outcome of \<open>process.cwd()\<close>, which throws when the working directory
  has been removed. \<open>object_prototype k\<close> is the value of the data property \<open>k\<close> of
  \<open>Object.prototype\<close>, undefined when there is none (the accessor \<open>__proto__\<close> is
  modelled apart). \<open>get_property v k\<close> is the read \<open>v[k]\<close> on a value that is a
  string, a number or a built-in; it can throw.
\<close>

record env =
  dirname :: string
  cwd :: "error + string"
  path_join :: "string \<Rightarrow> string \<Rightarrow> string"
  existsSync :: "string \<Rightarrow> bool"
  readFileSync :: "string \<Rightarrow> error + string"
  object_prototype :: "string \<Rightarrow> jsval"
  get_property :: "jsval \<Rightarrow> string \<Rightarrow> error + jsval"

text \<open>The state of a fresh process: \<open>let cfg: model_cfg | null = null\<close>.\<close>

definition init_world :: world where
  "init_world = \<lparr>cfg = None, fs_calls = [], console = []\<rparr>"

text \<open>The object \<open>{}\<close>.\<close>

definition empty_cfg :: model_cfg where
  "empty_cfg = \<lparr>own_props = Map.empty, proto_obj = None\<rparr>"

subsection \<open>\<open>parse_yaml\<close>\<close>

text \<open>
  \<open>obj[key] = {}\<close>. For the key \<open>__proto__\<close> the assignment reaches the setter of
  \<open>Object.prototype\<close>: the new object becomes the prototype of \<open>obj\<close> and no own
  property is created. For every other key it creates or replaces the own property.
\<close>

definition set_section :: "model_cfg \<Rightarrow> string \<Rightarrow> model_cfg" where
  "set_section obj key =
     (if key = ''__proto__'' then obj\<lparr>proto_obj := Some Map.empty\<rparr>
      else obj\<lparr>own_props := (own_props obj)(key \<mapsto> Map.empty)\<rparr>)"

text \<open>
  \<open>obj[sec][key] = val\<close> with a string \<open>val\<close>. The read \<open>obj[sec]\<close> finds the own
  property \<open>sec\<close>, or for \<open>sec = __proto__\<close> the prototype a header has installed. On
  the object found, the key \<open>__proto__\<close> reaches the setter, which ignores a string; every
  other key is stored. The loop only calls this with a \<open>sec\<close> for which a header has run
  (lemma \<open>parse_line_total\<close>), so the two last branches are not reached; there the
  embedding raises the TypeError of an assignment to a property of undefined.
\<close>

definition set_entry :: "model_cfg \<Rightarrow> string \<Rightarrow> string \<Rightarrow> string \<Rightarrow> error + model_cfg" where
  "set_entry obj sec key val =
     (case own_props obj sec of
        Some sm \<Rightarrow>
          Inr (if key = ''__proto__'' then obj
               else obj\<lparr>own_props := (own_props obj)(sec \<mapsto> sm(key \<mapsto> val))\<rparr>)
      | None \<Rightarrow>
          if sec = ''__proto__'' then
            (case proto_obj obj of
               Some pm \<Rightarrow>
                 Inr (if key = ''__proto__'' then obj
                      else obj\<lparr>proto_obj := Some (pm(key \<mapsto> val))\<rparr>)
             | None \<Rightarrow> Inl (TypeError ''Cannot set properties of undefined''))
          else Inl (TypeError ''Cannot set properties of undefined''))"

text \<open>
  The body of the \<open>for\<close> loop, on the loop state \<open>(obj, cur_sec)\<close>. A string is falsy when
  it is empty, so \<open>if (... && val)\<close> tests \<open>val \<noteq> []\<close> and \<open>else if (cur_sec && val)\<close> also
  fails for the empty section name.
\<close>

definition parse_line ::
  "string \<Rightarrow> model_cfg \<times> string option \<Rightarrow> error + (model_cfg \<times> string option)" where
  "parse_line line st =
     (case st of (obj, cur_sec) \<Rightarrow>
        let trimmed = trim line in
        if trimmed = [] \<or> startsWith trimmed ''#'' then Inr (obj, cur_sec)
        else
          let indent = search_nonspace line in
          (case split_str CHR '':'' trimmed of
             [] \<Rightarrow> Inr (obj, cur_sec)
           | key # val_parts \<Rightarrow>
               let val = trim (join_str CHR '':'' val_parts) in
               if indent = 0 \<and> val \<noteq> [] then Inr (obj, cur_sec)
               else if indent = 0 then Inr (set_section obj key, Some key)
               else
                 (case cur_sec of
                    None \<Rightarrow> Inr (obj, cur_sec)
                  | Some sec \<Rightarrow>
                      if sec \<noteq> [] \<and> val \<noteq> [] then
                        (case set_entry obj sec key val of
                           Inl err \<Rightarrow> Inl err
                         | Inr obj' \<Rightarrow> Inr (obj', cur_sec))
                      else Inr (obj, cur_sec))))"

text \<open>The loop over the lines; an exception ends it.\<close>

fun parse_lines ::
  "string list \<Rightarrow> model_cfg \<times> string option \<Rightarrow> error + (model_cfg \<times> string option)" where
  "parse_lines [] st = Inr st"
| "parse_lines (line # rest) st =
     (case parse_line line st of
        Inl e \<Rightarrow> Inl e
      | Inr st' \<Rightarrow> parse_lines rest st')"

definition parse_yaml :: "string \<Rightarrow> error + model_cfg" where
  "parse_yaml yml =
     (case parse_lines (split_str CHR 0x0A yml) (empty_cfg, None) of
        Inl e \<Rightarrow> Inl e
      | Inr (obj, cur_sec) \<Rightarrow> Inr obj)"

subsection \<open>\<open>get_defaults\<close>\<close>

text \<open>An object literal: the five own properties, the prototype \<open>Object.prototype\<close>.\<close>

definition get_defaults :: model_cfg where
  "get_defaults =
    \<lparr>own_props =
     [''episodic'' \<mapsto>
        [''ollama'' \<mapsto> ''nomic-embed-text'',
         ''openai'' \<mapsto> ''text-embedding-3-small'',
         ''gemini'' \<mapsto> ''gemini-embedding-001'',
         ''aws'' \<mapsto> ''amazon.titan-embed-text-v2:0'',
         ''local'' \<mapsto> ''all-MiniLM-L6-v2''],
      ''semantic'' \<mapsto>
        [''ollama'' \<mapsto> ''nomic-embed-text'',
         ''openai'' \<mapsto> ''text-embedding-3-small'',
         ''gemini'' \<mapsto> ''gemini-embedding-001'',
         ''aws'' \<mapsto> ''amazon.titan-embed-text-v2:0'',
         ''local'' \<mapsto> ''all-MiniLM-L6-v2''],
      ''procedural'' \<mapsto>
        [''ollama'' \<mapsto> ''nomic-embed-text'',
         ''openai'' \<mapsto> ''text-embedding-3-small'',
         ''gemini'' \<mapsto> ''gemini-embedding-001'',
         ''aws'' \<mapsto> ''amazon.titan-embed-text-v2:0'',
         ''local'' \<mapsto> ''all-MiniLM-L6-v2''],
      ''emotional'' \<mapsto>
        [''ollama'' \<mapsto> ''nomic-embed-text'',
         ''openai'' \<mapsto> ''text-embedding-3-small'',
         ''gemini'' \<mapsto> ''gemini-embedding-001'',
         ''aws'' \<mapsto> ''amazon.titan-embed-text-v2:0'',
         ''local'' \<mapsto> ''all-MiniLM-L6-v2''],
      ''reflective'' \<mapsto>
        [''ollama'' \<mapsto> ''nomic-embed-text'',
         ''openai'' \<mapsto> ''text-embedding-3-large'',
         ''gemini'' \<mapsto> ''gemini-embedding-001'',
         ''aws'' \<mapsto> ''amazon.titan-embed-text-v2:0'',
         ''local'' \<mapsto> ''all-mpnet-base-v2'']],
     proto_obj = None\<rparr>"

subsection \<open>\<open>find_models_file\<close>\<close>

text \<open>The \<open>for\<close> loop over the candidate paths; every \<open>existsSync\<close> call is recorded.\<close>

fun find_loop :: "env \<Rightarrow> string list \<Rightarrow> world \<Rightarrow> string option \<times> world" where
  "find_loop e [] w = (None, w)"
| "find_loop e (p # ps) w =
     (let w' = w\<lparr>fs_calls := fs_calls w @ [ExistsSync p]\<rparr> in
      if existsSync e p then (Some p, w') else find_loop e ps w')"

text \<open>The array \<open>paths\<close>, for the working directory \<open>d\<close> that \<open>process.cwd()\<close> returned.\<close>

definition candidate_paths :: "env \<Rightarrow> string \<Rightarrow> string list" where
  "candidate_paths e d =
     [path_join e (dirname e) ''../../../models.yml'',
      ''/app/models.yml'',
      path_join e d ''models.yml'']"

text \<open>
  The array is built before the loop, so \<open>process.cwd()\<close> is called before any
  \<open>existsSync\<close>; when it throws, the exception leaves \<open>find_models_file\<close>.
\<close>

definition find_models_file :: "env \<Rightarrow> world \<Rightarrow> (error + string option) \<times> world" where
  "find_models_file e w =
     (case cwd e of
        Inl err \<Rightarrow> (Inl err, w)
      | Inr d \<Rightarrow> (case find_loop e (candidate_paths e d) w of (r, w') \<Rightarrow> (Inr r, w')))"

subsection \<open>\<open>load_models\<close>\<close>

text \<open>The branch taken when \<open>!p\<close> holds: warn, store the defaults, return them.\<close>

definition use_defaults_not_found :: "world \<Rightarrow> (error + model_cfg) \<times> world" where
  "use_defaults_not_found w =
     (let w1 = w\<lparr>console := console w @ [Warn_not_found]\<rparr>;
          w2 = w1\<lparr>cfg := Some get_defaults\<rparr>
      in (Inr get_defaults, w2))"

text \<open>The \<open>catch (e)\<close> block.\<close>

definition catch_block :: "error \<Rightarrow> world \<Rightarrow> (error + model_cfg) \<times> world" where
  "catch_block e w =
     (let w1 = w\<lparr>console := console w @ [Error_failed e]\<rparr>;
          w2 = w1\<lparr>cfg := Some get_defaults\<rparr>
      in (Inr get_defaults, w2))"

text \<open>
  The \<open>try\<close> block with its handler: an exception of \<open>readFileSync\<close> or of \<open>parse_yaml\<close>
  goes to \<open>catch_block\<close>. \<open>Object.keys(cfg).length\<close> counts the own properties.
\<close>

definition try_block :: "env \<Rightarrow> string \<Rightarrow> world \<Rightarrow> (error + model_cfg) \<times> world" where
  "try_block e p w =
     (let w1 = w\<lparr>fs_calls := fs_calls w @ [ReadFileSync p]\<rparr> in
      case readFileSync e p of
        Inl err \<Rightarrow> catch_block err w1
      | Inr yml \<Rightarrow>
          (case parse_yaml yml of
             Inl err \<Rightarrow> catch_block err w1
           | Inr c \<Rightarrow>
               let w2 = w1\<lparr>cfg := Some c\<rparr>;
                   w3 = w2\<lparr>console := console w2 @ [Log_loaded p (card (dom (own_props c)))]\<rparr>
               in (Inr c, w3)))"

text \<open>
  \<open>if (cfg) return cfg\<close>: an object is truthy, so the test is \<open>cfg \<noteq> null\<close>.
  \<open>find_models_file()\<close> is called outside the \<open>try\<close> block: its exception leaves
  \<open>load_models\<close>. \<open>if (!p)\<close>: \<open>p\<close> is null or the empty string.
\<close>

definition load_models :: "env \<Rightarrow> world \<Rightarrow> (error + model_cfg) \<times> world" where
  "load_models e w =
     (case cfg w of
        Some c \<Rightarrow> (Inr c, w)
      | None \<Rightarrow>
          (case find_models_file e w of
             (Inl err, w1) \<Rightarrow> (Inl err, w1)
           | (Inr None, w1) \<Rightarrow> use_defaults_not_found w1
           | (Inr (Some p), w1) \<Rightarrow>
               if p = [] then use_defaults_not_found w1 else try_block e p w1))"

subsection \<open>\<open>get_model\<close> and \<open>get_provider_config\<close>\<close>

text \<open>
  The read \<open>c[k]\<close> on an object of the interface \<open>model_cfg\<close>: the own property, else
  the own property of a replaced prototype, else the property of \<open>Object.prototype\<close>.
  There the accessor \<open>__proto__\<close> returns the prototype of \<open>c\<close>.
\<close>

definition cfg_get :: "env \<Rightarrow> model_cfg \<Rightarrow> string \<Rightarrow> jsval" where
  "cfg_get e c k =
     (case own_props c k of
        Some sm \<Rightarrow> JObject sm
      | None \<Rightarrow>
          (case proto_obj c of
             None \<Rightarrow>
               if k = ''__proto__'' then JBuiltin ''Object.prototype'' else object_prototype e k
           | Some pm \<Rightarrow>
               (case pm k of
                  Some v \<Rightarrow> JStr v
                | None \<Rightarrow> if k = ''__proto__'' then JObject pm else object_prototype e k)))"

text \<open>
  The read \<open>v?.[k]\<close>: undefined when \<open>v\<close> is undefined or null; on a plain object the own
  property, else the property of \<open>Object.prototype\<close>; on any other value the read of the
  runtime, which can throw.
\<close>

definition chain_get :: "env \<Rightarrow> jsval \<Rightarrow> string \<Rightarrow> error + jsval" where
  "chain_get e v k =
     (case v of
        JUndefined \<Rightarrow> Inr JUndefined
      | JNull \<Rightarrow> Inr JUndefined
      | JObject sm \<Rightarrow>
          (case sm k of
             Some x \<Rightarrow> Inr (JStr x)
           | None \<Rightarrow>
               Inr (if k = ''__proto__'' then JBuiltin ''Object.prototype''
                    else object_prototype e k))
      | JStr s \<Rightarrow> get_property e v k
      | JNum n \<Rightarrow> get_property e v k
      | JBuiltin n \<Rightarrow> get_property e v k)"

text \<open>Truthiness: undefined, null, the empty string and 0 are falsy, objects are truthy.\<close>

fun truthy :: "jsval \<Rightarrow> bool" where
  "truthy JUndefined = False"
| "truthy JNull = False"
| "truthy (JStr s) = (s \<noteq> [])"
| "truthy (JNum n) = (n \<noteq> 0)"
| "truthy (JObject sm) = True"
| "truthy (JBuiltin n) = True"

text \<open>
  \<open>a || b || "nomic-embed-text"\<close>: the operands are evaluated from the left, the first
  truthy one is returned as it is, and an exception of a read leaves \<open>get_model\<close>, which
  has no handler.
\<close>

definition get_model ::
  "env \<Rightarrow> string \<Rightarrow> string \<Rightarrow> world \<Rightarrow> (error + jsval) \<times> world" where
  "get_model e sector provider w =
     (case load_models e w of
        (Inl err, w') \<Rightarrow> (Inl err, w')
      | (Inr c, w') \<Rightarrow>
          (case chain_get e (cfg_get e c sector) provider of
             Inl err \<Rightarrow> (Inl err, w')
           | Inr a \<Rightarrow>
               if truthy a then (Inr a, w')
               else
                 (case chain_get e (cfg_get e c ''semantic'') provider of
                    Inl err \<Rightarrow> (Inl err, w')
                  | Inr b \<Rightarrow>
                      if truthy b then (Inr b, w')
                      else (Inr (JStr ''nomic-embed-text''), w'))))"

text \<open>\<open>return {}\<close>: the object with no own property.\<close>

definition get_provider_config :: "string \<Rightarrow> (string \<rightharpoonup> string)" where
  "get_provider_config provider = Map.empty"

text \<open>
  The states a process can be in: it starts in \<open>init_world\<close> and changes the state only
  through the exported functions, under any state of the environment.
\<close>

inductive reachable :: "world \<Rightarrow> bool" where
  reach_init: "reachable init_world"
| reach_load: "reachable w \<Longrightarrow> reachable (snd (load_models e w))"
| reach_get: "reachable w \<Longrightarrow> reachable (snd (get_model e sector provider w))"

subsection \<open>Predicates used to state the properties\<close>

text \<open>
  The entry \<open>mapping[s][p]\<close> of a configuration mapping, as data: the own property \<open>p\<close>
  of the own property \<open>s\<close>.
\<close>

definition entry :: "model_cfg \<Rightarrow> string \<Rightarrow> string \<Rightarrow> string option" where
  "entry m s p = (case own_props m s of None \<Rightarrow> None | Some sm \<Rightarrow> sm p)"

text \<open>
  The resolution chain in the words of the specification: the entry of the sector if it is
  present, else the entry of the sector \<open>semantic\<close> if it is present, else the literal.
\<close>

definition resolve_spec :: "model_cfg \<Rightarrow> string \<Rightarrow> string \<Rightarrow> string" where
  "resolve_spec m s p =
     (case entry m s p of
        Some v \<Rightarrow> v
      | None \<Rightarrow>
          (case entry m ''semantic'' p of
             Some v \<Rightarrow> v
           | None \<Rightarrow> ''nomic-embed-text''))"

text \<open>
  The line reaches the branch \<open>else if (indent === 0)\<close> of the loop with \<open>key = sec\<close>: it is
  a section header for \<open>sec\<close>.
\<close>

definition is_section_header :: "string \<Rightarrow> string \<Rightarrow> bool" where
  "is_section_header line sec =
     (trim line \<noteq> [] \<and> \<not> startsWith (trim line) ''#'' \<and> search_nonspace line = 0 \<and>
      (case split_str CHR '':'' (trim line) of
         [] \<Rightarrow> False
       | key # val_parts \<Rightarrow> key = sec \<and> trim (join_str CHR '':'' val_parts) = []))"

text \<open>
  The line is indented, has the key \<open>k\<close> and a value that is not empty: it can record an
  entry for \<open>k\<close> in the current section.
\<close>

definition is_entry :: "string \<Rightarrow> string \<Rightarrow> bool" where
  "is_entry line k =
     (trim line \<noteq> [] \<and> \<not> startsWith (trim line) ''#'' \<and> search_nonspace line \<noteq> 0 \<and>
      (case split_str CHR '':'' (trim line) of
         [] \<Rightarrow> False
       | key # val_parts \<Rightarrow> key = k \<and> trim (join_str CHR '':'' val_parts) \<noteq> []))"

text \<open>
  The line starts at indentation 0 and carries a value after its first colon: a top-level
  scalar such as \<open>foo: bar\<close>.
\<close>

definition is_top_level_scalar :: "string \<Rightarrow> bool" where
  "is_top_level_scalar line =
     (search_nonspace line = 0 \<and>
      (case split_str CHR '':'' (trim line) of
         [] \<Rightarrow> False
       | key # val_parts \<Rightarrow> trim (join_str CHR '':'' val_parts) \<noteq> []))"

text \<open>The loop state before the first line.\<close>

definition init_parse :: "model_cfg \<times> string option" where
  "init_parse = (empty_cfg, None)"

text \<open>
  The object that a header for \<open>sec\<close> creates and that \<open>obj[sec]\<close> reads afterwards: the
  own property, or for \<open>__proto__\<close> the replaced prototype.
\<close>

definition section_of :: "model_cfg \<Rightarrow> string \<Rightarrow> sector_cfg option" where
  "section_of obj sec = (if sec = ''__proto__'' then proto_obj obj else own_props obj sec)"

text \<open>
  Loop invariants. The current section, if there is one, has its object. No object has an
  own property named \<open>__proto__\<close>.
\<close>

definition sec_defined :: "model_cfg \<times> string option \<Rightarrow> bool" where
  "sec_defined st =
     (case st of (obj, cur_sec) \<Rightarrow>
        (case cur_sec of None \<Rightarrow> True | Some sec \<Rightarrow> section_of obj sec \<noteq> None))"

definition proto_free :: "model_cfg \<Rightarrow> bool" where
  "proto_free obj =
     (own_props obj ''__proto__'' = None \<and>
      (case proto_obj obj of None \<Rightarrow> True | Some pm \<Rightarrow> pm ''__proto__'' = None))"

definition parse_inv :: "model_cfg \<times> string option \<Rightarrow> bool" where
  "parse_inv st = (sec_defined st \<and> proto_free (fst st))"

text \<open>No value of a section, or of a mapping, is the empty string.\<close>

definition sec_nonempty :: "sector_cfg \<Rightarrow> bool" where
  "sec_nonempty sm = (\<forall>k. sm k \<noteq> Some [])"

definition cfg_nonempty :: "model_cfg \<Rightarrow> bool" where
  "cfg_nonempty c =
     ((\<forall>sec sm. own_props c sec = Some sm \<longrightarrow> sec_nonempty sm) \<and>
      (\<forall>pm. proto_obj c = Some pm \<longrightarrow> sec_nonempty pm))"

definition wf_world :: "world \<Rightarrow> bool" where
  "wf_world w = (case cfg w of None \<Rightarrow> True | Some c \<Rightarrow> cfg_nonempty c \<and> proto_free c)"

text \<open>The key \<open>k\<close> is not in the section \<open>sec\<close> of the loop state.\<close>

definition absent_in :: "string \<Rightarrow> string \<Rightarrow> model_cfg \<times> string option \<Rightarrow> bool" where
  "absent_in sec k st = (\<exists>sm. section_of (fst st) sec = Some sm \<and> sm k = None)"

text \<open>Two loop states with the same current section and the same content of \<open>sec\<close>.\<close>

definition agree_on ::
  "string \<Rightarrow> model_cfg \<times> string option \<Rightarrow> model_cfg \<times> string option \<Rightarrow> bool" where
  "agree_on sec a b =
     (snd a = snd b \<and> section_of (fst a) sec = section_of (fst b) sec \<and>
      parse_inv a \<and> parse_inv b)"

subsection \<open>Example environments\<close>

text \<open>
  \<open>path.join\<close> on POSIX for an absolute first argument: the segments are normalised
  (\<open>.\<close> and empty segments dropped, \<open>..\<close> removing the segment before it). It only builds
  the example environments below; the general lemmas hold for every \<open>path_join\<close>.
\<close>

fun norm_segments :: "string list \<Rightarrow> string list \<Rightarrow> string list" where
  "norm_segments [] acc = rev acc"
| "norm_segments (s # ss) acc =
     (if s = [] \<or> s = ''.'' then norm_segments ss acc
      else if s = ''..'' then norm_segments ss (tl acc)
      else norm_segments ss (s # acc))"

definition posix_join :: "string \<Rightarrow> string \<Rightarrow> string" where
  "posix_join a b =
     CHR ''/'' # join_str CHR ''/'' (norm_segments (split_str CHR ''/'' (a @ CHR ''/'' # b)) [])"

text \<open>
  The data properties of \<open>Object.prototype\<close> as ECMA-262 lists them (with Annex B): the
  function \<open>Object\<close> under \<open>constructor\<close>, and ten functions named as their keys.
\<close>

definition object_prototype_functions :: "string list" where
  "object_prototype_functions =
     [''hasOwnProperty'', ''isPrototypeOf'', ''propertyIsEnumerable'', ''toLocaleString'',
      ''toString'', ''valueOf'', ''__defineGetter__'', ''__defineSetter__'',
      ''__lookupGetter__'', ''__lookupSetter__'']"

definition node_object_prototype :: "string \<Rightarrow> jsval" where
  "node_object_prototype k =
     (if k = ''constructor'' then JBuiltin ''Object''
      else if k \<in> set object_prototype_functions then JBuiltin k
      else JUndefined)"

text \<open>The number of parameters (\<open>length\<close>) of these functions.\<close>

definition builtin_length :: "string \<Rightarrow> int" where
  "builtin_length n =
     (if n \<in> set [''toLocaleString'', ''toString'', ''valueOf''] then 0
      else if n \<in> set [''__defineGetter__'', ''__defineSetter__''] then 2
      else 1)"

text \<open>
  Reads on built-in values, for the entries the examples use. On \<open>Object.prototype\<close>: its
  own data properties, and \<open>__proto__\<close>, which is null. On a built-in function: \<open>name\<close>
  and \<open>length\<close>, and \<open>caller\<close> and \<open>arguments\<close>, the accessors of \<open>Function.prototype\<close>
  that throw a TypeError for such a function. Every other read is answered undefined here;
  the table says nothing about Node for those.
\<close>

definition node_get_property :: "jsval \<Rightarrow> string \<Rightarrow> error + jsval" where
  "node_get_property v k =
     (case v of
        JBuiltin n \<Rightarrow>
          if n = ''Object.prototype'' then
            (if k = ''__proto__'' then Inr JNull else Inr (node_object_prototype k))
          else if k = ''caller'' \<or> k = ''arguments'' then
            Inl (TypeError ''caller, callee, and arguments may not be accessed'')
          else if k = ''name'' then Inr (JStr n)
          else if k = ''length'' then Inr (JNum (builtin_length n))
          else Inr JUndefined
      | JUndefined \<Rightarrow> Inr JUndefined
      | JNull \<Rightarrow> Inr JUndefined
      | JStr s \<Rightarrow> Inr JUndefined
      | JNum i \<Rightarrow> Inr JUndefined
      | JObject sm \<Rightarrow> Inr JUndefined)"

text \<open>No candidate path exists.\<close>

definition env_no_file :: env where
  "env_no_file =
     \<lparr>dirname = ''/srv/om/backend/src/core'', cwd = Inr ''/srv/om/backend'',
      path_join = posix_join,
      existsSync = (\<lambda>p. False),
      readFileSync = (\<lambda>p. Inl (FsError ''ENOENT'')),
      object_prototype = node_object_prototype,
      get_property = node_get_property\<rparr>"

text \<open>Only \<open>/app/models.yml\<close> exists, with the given content.\<close>

definition env_with_file :: "string \<Rightarrow> env" where
  "env_with_file content =
     \<lparr>dirname = ''/srv/om/backend/src/core'', cwd = Inr ''/srv/om/backend'',
      path_join = posix_join,
      existsSync = (\<lambda>p. p = ''/app/models.yml''),
      readFileSync = (\<lambda>p. if p = ''/app/models.yml'' then Inr content
                           else Inl (FsError ''ENOENT'')),
      object_prototype = node_object_prototype,
      get_property = node_get_property\<rparr>"

text \<open>Only \<open>/app/models.yml\<close> exists, and reading it fails.\<close>

definition env_unreadable :: env where
  "env_unreadable =
     \<lparr>dirname = ''/srv/om/backend/src/core'', cwd = Inr ''/srv/om/backend'',
      path_join = posix_join,
      existsSync = (\<lambda>p. p = ''/app/models.yml''),
      readFileSync = (\<lambda>p. Inl (FsError ''EACCES'')),
      object_prototype = node_object_prototype,
      get_property = node_get_property\<rparr>"

text \<open>\<open>/app/models.yml\<close> exists, and the working directory has been removed.\<close>

definition env_cwd_removed :: env where
  "env_cwd_removed =
     \<lparr>dirname = ''/srv/om/backend/src/core'',
      cwd = Inl (FsError ''ENOENT: no such file or directory, uv_cwd''),
      path_join = posix_join,
      existsSync = (\<lambda>p. p = ''/app/models.yml''),
      readFileSync = (\<lambda>p. if p = ''/app/models.yml'' then Inr ''semantic:''
                           else Inl (FsError ''ENOENT'')),
      object_prototype = node_object_prototype,
      get_property = node_get_property\<rparr>"

section \<open>Auxiliary lemmas\<close>

subsection \<open>Splitting and joining\<close>

lemma split_str_not_Nil: "split_str sep s \<noteq> []"
  by (induction s) (auto split: list.splits)

lemma split_str_no_sep: "sep \<notin> set s \<Longrightarrow> split_str sep s = [s]"
  by (induction s) auto

lemma split_str_append:
  "sep \<notin> set a \<Longrightarrow> split_str sep (a @ sep # b) = a # split_str sep b"
  by (induction a) auto

lemma split_join_str:
  "\<forall>l \<in> set ls. sep \<notin> set l \<Longrightarrow> ls \<noteq> [] \<Longrightarrow> split_str sep (join_str sep ls) = ls"
proof (induction sep ls rule: join_str.induct)
  case (1 sep)
  then show ?case by simp
next
  case (2 sep p)
  then show ?case by (simp add: split_str_no_sep)
next
  case (3 sep p q ps)
  then show ?case by (simp add: split_str_append)
qed

subsection \<open>The parser never throws\<close>

lemma parse_inv_init: "parse_inv init_parse"
  by (simp add: parse_inv_def sec_defined_def proto_free_def init_parse_def empty_cfg_def)

lemma set_section_inv:
  "proto_free obj \<Longrightarrow> parse_inv (set_section obj key, Some key)"
  by (auto simp: parse_inv_def sec_defined_def proto_free_def set_section_def section_of_def
        split: option.splits)

lemma set_entry_total:
  assumes "parse_inv (obj, Some sec)"
  shows "\<exists>obj'. set_entry obj sec key val = Inr obj' \<and> parse_inv (obj', Some sec)"
  using assms
  by (auto simp: parse_inv_def sec_defined_def proto_free_def set_entry_def section_of_def
        split: option.splits if_splits)

lemma parse_line_shape:
  "(\<forall>obj. parse_line line (obj, cur) = Inr (obj, cur)) \<or>
   (\<exists>key. is_section_header line key \<and>
      (\<forall>obj. parse_line line (obj, cur) = Inr (set_section obj key, Some key))) \<or>
   (\<exists>sec key val. cur = Some sec \<and> val \<noteq> [] \<and> is_entry line key \<and>
      (\<forall>obj. parse_line line (obj, cur) =
        (case set_entry obj sec key val of
           Inl err \<Rightarrow> Inl err
         | Inr obj' \<Rightarrow> Inr (obj', cur))))"
proof (cases "trim line = [] \<or> startsWith (trim line) ''#''")
  case True
  then show ?thesis by (simp add: parse_line_def)
next
  case False
  obtain key val_parts where sp: "split_str CHR '':'' (trim line) = key # val_parts"
    using split_str_not_Nil[of "CHR '':''" "trim line"]
    by (cases "split_str CHR '':'' (trim line)") auto
  let ?val = "trim (join_str CHR '':'' val_parts)"
  show ?thesis
  proof (cases "search_nonspace line = 0")
    case True
    with False sp show ?thesis
      by (cases "?val = []") (simp_all add: parse_line_def Let_def is_section_header_def)
  next
    case ind: False
    show ?thesis
    proof (cases cur)
      case None
      with False sp ind show ?thesis by (simp add: parse_line_def Let_def)
    next
      case (Some sec)
      show ?thesis
      proof (cases "sec \<noteq> [] \<and> ?val \<noteq> []")
        case True
        with False sp ind Some have
          "\<forall>obj. parse_line line (obj, cur) =
             (case set_entry obj sec key ?val of
                Inl err \<Rightarrow> Inl err
              | Inr obj' \<Rightarrow> Inr (obj', cur))"
          by (simp add: parse_line_def Let_def cong: sum.case_cong)
        moreover from False sp ind True have "is_entry line key"
          by (simp add: is_entry_def)
        ultimately show ?thesis using Some True by blast
      next
        case f: False
        with False sp ind Some show ?thesis by (auto simp: parse_line_def Let_def)
      qed
    qed
  qed
qed

lemma parse_line_cases:
  "parse_line line (obj, cur) = Inr (obj, cur) \<or>
   (\<exists>key. is_section_header line key \<and>
      parse_line line (obj, cur) = Inr (set_section obj key, Some key)) \<or>
   (\<exists>sec key val. cur = Some sec \<and> val \<noteq> [] \<and> is_entry line key \<and>
      parse_line line (obj, cur) =
        (case set_entry obj sec key val of
           Inl err \<Rightarrow> Inl err
         | Inr obj' \<Rightarrow> Inr (obj', cur)))"
  using parse_line_shape[of line cur] by blast

lemma parse_line_total:
  assumes "parse_inv st"
  shows "\<exists>st'. parse_line line st = Inr st' \<and> parse_inv st'"
proof -
  obtain obj cur where st: "st = (obj, cur)" by (cases st)
  have pf: "proto_free obj" using assms st by (simp add: parse_inv_def)
  from parse_line_cases[of line obj cur] consider
    (skip) "parse_line line (obj, cur) = Inr (obj, cur)"
  | (header) key where "parse_line line (obj, cur) = Inr (set_section obj key, Some key)"
  | (entry) sec key val where "cur = Some sec"
      "parse_line line (obj, cur) =
        (case set_entry obj sec key val of
           Inl err \<Rightarrow> Inl err
         | Inr obj' \<Rightarrow> Inr (obj', cur))"
    by blast
  then show ?thesis
  proof cases
    case skip
    with assms st show ?thesis by simp
  next
    case header
    with st set_section_inv[OF pf] show ?thesis by simp
  next
    case entry
    from assms st entry(1) have "parse_inv (obj, Some sec)" by simp
    from set_entry_total[OF this, of key val] obtain obj'
      where "set_entry obj sec key val = Inr obj'" "parse_inv (obj', Some sec)" by blast
    with st entry show ?thesis by simp
  qed
qed

lemma parse_lines_total:
  "parse_inv st \<Longrightarrow> \<exists>st'. parse_lines ls st = Inr st' \<and> parse_inv st'"
proof (induction ls arbitrary: st)
  case Nil
  then show ?case by simp
next
  case (Cons l ls)
  from parse_line_total[OF Cons.prems, of l] obtain st1
    where "parse_line l st = Inr st1" "parse_inv st1" by blast
  with Cons.IH[of st1] show ?case by simp
qed

lemma parse_yaml_total: "\<exists>m. parse_yaml yml = Inr m \<and> proto_free m"
proof -
  from parse_lines_total[OF parse_inv_init, of "split_str CHR 0x0A yml"]
  show ?thesis by (auto simp: parse_yaml_def init_parse_def parse_inv_def)
qed

lemma parse_lines_append:
  "parse_lines (xs @ ys) st =
     (case parse_lines xs st of Inl e \<Rightarrow> Inl e | Inr st' \<Rightarrow> parse_lines ys st')"
  by (induction xs arbitrary: st) (auto split: sum.splits)

lemma parse_line_empty: "parse_line [] st = Inr st"
  by (cases st) (simp add: parse_line_def trim_def)

lemma parse_yaml_join:
  assumes "\<forall>l \<in> set ls. CHR 0x0A \<notin> set l"
  shows "parse_yaml (join_str CHR 0x0A ls) =
           (case parse_lines ls init_parse of Inl e \<Rightarrow> Inl e | Inr st \<Rightarrow> Inr (fst st))"
proof (cases ls)
  case Nil
  then show ?thesis by (simp add: parse_yaml_def parse_line_empty init_parse_def)
next
  case (Cons a as)
  with assms have "split_str CHR 0x0A (join_str CHR 0x0A ls) = ls"
    using split_join_str[of ls "CHR 0x0A"] by simp
  then show ?thesis
    by (auto simp: parse_yaml_def init_parse_def split: sum.splits)
qed

lemma parse_line_skipped:
  "trim line = [] \<or> startsWith (trim line) ''#'' \<Longrightarrow> parse_line line st = Inr st"
  by (cases st) (simp add: parse_line_def)

lemma parse_lines_skip:
  "trim l = [] \<or> startsWith (trim l) ''#'' \<Longrightarrow>
   parse_lines (pre @ l # post) st = parse_lines (pre @ post) st"
  by (simp add: parse_lines_append parse_line_skipped split: sum.splits)

lemma parse_line_top_level_scalar:
  "is_top_level_scalar line \<Longrightarrow> parse_line line st = Inr st"
  by (cases st) (auto simp: parse_line_def is_top_level_scalar_def Let_def split: list.splits)

lemma parse_lines_top_level_scalar:
  "is_top_level_scalar l \<Longrightarrow>
   parse_lines (pre @ l # post) st = parse_lines (pre @ post) st"
  by (simp add: parse_lines_append parse_line_top_level_scalar split: sum.splits)

subsection \<open>Stored values are not empty\<close>

lemma sec_nonempty_empty: "sec_nonempty Map.empty"
  by (simp add: sec_nonempty_def)

lemma sec_nonempty_upd: "sec_nonempty sm \<Longrightarrow> v \<noteq> [] \<Longrightarrow> sec_nonempty (sm(k \<mapsto> v))"
  by (simp add: sec_nonempty_def)

lemma set_section_nonempty: "cfg_nonempty obj \<Longrightarrow> cfg_nonempty (set_section obj key)"
  by (auto simp: cfg_nonempty_def set_section_def sec_nonempty_empty)

lemma set_entry_nonempty:
  "cfg_nonempty obj \<Longrightarrow> val \<noteq> [] \<Longrightarrow> set_entry obj sec key val = Inr obj' \<Longrightarrow>
   cfg_nonempty obj'"
  by (auto simp: cfg_nonempty_def set_entry_def sec_nonempty_upd
        split: option.splits if_splits)

lemma parse_line_nonempty:
  assumes "cfg_nonempty obj" "parse_line line (obj, cur) = Inr (obj', cur')"
  shows "cfg_nonempty obj'"
proof -
  from parse_line_cases[of line obj cur] consider
    (skip) "parse_line line (obj, cur) = Inr (obj, cur)"
  | (header) key where "parse_line line (obj, cur) = Inr (set_section obj key, Some key)"
  | (entry) sec key val where "val \<noteq> []"
      "parse_line line (obj, cur) =
        (case set_entry obj sec key val of
           Inl err \<Rightarrow> Inl err
         | Inr obj' \<Rightarrow> Inr (obj', cur))"
    by blast
  then show ?thesis
  proof cases
    case skip
    with assms show ?thesis by simp
  next
    case header
    with assms set_section_nonempty[of obj key] show ?thesis by simp
  next
    case entry
    with assms(2) have "set_entry obj sec key val = Inr obj'"
      by (auto split: sum.splits)
    from set_entry_nonempty[OF assms(1) entry(1) this] show ?thesis .
  qed
qed

lemma parse_lines_nonempty:
  "cfg_nonempty (fst st) \<Longrightarrow> parse_lines ls st = Inr st' \<Longrightarrow> cfg_nonempty (fst st')"
proof (induction ls arbitrary: st)
  case Nil
  then show ?case by simp
next
  case (Cons l ls)
  from Cons.prems(2) obtain st1 where l: "parse_line l st = Inr st1"
    and r: "parse_lines ls st1 = Inr st'"
    by (auto split: sum.splits)
  from l Cons.prems(1) have "cfg_nonempty (fst st1)"
    using parse_line_nonempty[of "fst st" l "snd st" "fst st1" "snd st1"] by simp
  with Cons.IH r show ?case by blast
qed

lemma cfg_nonempty_empty: "cfg_nonempty empty_cfg"
  by (simp add: cfg_nonempty_def empty_cfg_def)

lemma parse_yaml_nonempty: "parse_yaml yml = Inr m \<Longrightarrow> cfg_nonempty m"
  using parse_lines_nonempty[of "(empty_cfg, None)" "split_str CHR 0x0A yml"]
  by (auto simp: parse_yaml_def cfg_nonempty_empty split: sum.splits)

lemma get_defaults_nonempty: "cfg_nonempty get_defaults"
  by (auto simp: cfg_nonempty_def sec_nonempty_def get_defaults_def split: if_splits)

lemma get_defaults_proto_free: "proto_free get_defaults"
  by (simp add: proto_free_def get_defaults_def)

subsection \<open>Section headers\<close>

lemma parse_line_header:
  "is_section_header h sec \<Longrightarrow>
   parse_line h (obj, cur) = Inr (set_section obj sec, Some sec)"
  by (auto simp: is_section_header_def parse_line_def Let_def split: list.splits)

lemma section_of_set_section:
  "section_of (set_section obj key) sec =
     (if sec = key then Some Map.empty else section_of obj sec)"
  by (auto simp: section_of_def set_section_def)

lemma section_of_set_entry:
  assumes "proto_free obj" "set_entry obj s key val = Inr obj'"
  shows "section_of obj' sec =
     (if sec = s \<and> key \<noteq> ''__proto__''
      then map_option (\<lambda>sm. sm(key \<mapsto> val)) (section_of obj sec)
      else section_of obj sec)"
  using assms
  by (auto simp: section_of_def set_entry_def proto_free_def split: option.splits if_splits)

lemma parse_line_section_of:
  assumes "parse_inv (obj, cur)" "parse_line line (obj, cur) = Inr (obj', cur')"
  shows "section_of obj' sec = section_of obj sec \<or>
         (is_section_header line sec \<and> section_of obj' sec = Some Map.empty \<and> cur' = Some sec) \<or>
         (\<exists>key val sm. cur = Some sec \<and> cur' = Some sec \<and> is_entry line key \<and>
            section_of obj sec = Some sm \<and> section_of obj' sec = Some (sm(key \<mapsto> val)))"
proof -
  have pf: "proto_free obj" using assms(1) by (simp add: parse_inv_def)
  from parse_line_cases[of line obj cur] consider
    (skip) "parse_line line (obj, cur) = Inr (obj, cur)"
  | (header) key where "is_section_header line key"
      "parse_line line (obj, cur) = Inr (set_section obj key, Some key)"
  | (entry) s key val where "cur = Some s" "is_entry line key"
      "parse_line line (obj, cur) =
        (case set_entry obj s key val of
           Inl err \<Rightarrow> Inl err
         | Inr obj' \<Rightarrow> Inr (obj', cur))"
    by blast
  then show ?thesis
  proof cases
    case skip
    with assms(2) show ?thesis by simp
  next
    case header
    with assms(2) show ?thesis
      by (cases "sec = key") (auto simp: section_of_set_section)
  next
    case entry
    from assms(1) entry(1) have "parse_inv (obj, Some s)" by simp
    from set_entry_total[OF this, of key val] obtain o1
      where o1: "set_entry obj s key val = Inr o1" by blast
    with entry(3) assms(2) have eq: "obj' = o1" "cur' = cur" by simp_all
    from assms(1) entry(1) obtain sm0 where sm0: "section_of obj s = Some sm0"
      by (auto simp: parse_inv_def sec_defined_def)
    show ?thesis
      using section_of_set_entry[OF pf o1, of sec] eq entry(1,2) sm0
      by (auto split: if_splits)
  qed
qed

lemma parse_line_absent:
  assumes "parse_inv st" "absent_in sec k st" "\<not> is_entry line k" "parse_line line st = Inr st'"
  shows "absent_in sec k st'"
proof -
  obtain obj cur where st: "st = (obj, cur)" by (cases st)
  obtain obj' cur' where st': "st' = (obj', cur')" by (cases st')
  from parse_line_section_of[of obj cur line obj' cur' sec] assms st st'
  show ?thesis by (auto simp: absent_in_def)
qed

lemma parse_lines_absent:
  "parse_inv st \<Longrightarrow> absent_in sec k st \<Longrightarrow> \<forall>l \<in> set ls. \<not> is_entry l k \<Longrightarrow>
   parse_lines ls st = Inr st' \<Longrightarrow> absent_in sec k st'"
proof (induction ls arbitrary: st)
  case Nil
  then show ?case by simp
next
  case (Cons l ls)
  from Cons.prems(4) obtain st1 where l: "parse_line l st = Inr st1"
    and r: "parse_lines ls st1 = Inr st'"
    by (auto split: sum.splits)
  from parse_line_total[OF Cons.prems(1), of l] l have i1: "parse_inv st1" by simp
  from parse_line_absent[OF Cons.prems(1,2) _ l] Cons.prems(3)
  have "absent_in sec k st1" by simp
  from Cons.IH[OF i1 this _ r] Cons.prems(3) show ?case by simp
qed

lemma parse_line_agree:
  assumes "agree_on sec a b"
  shows "\<exists>a' b'. parse_line line a = Inr a' \<and> parse_line line b = Inr b' \<and> agree_on sec a' b'"
proof -
  obtain oa ca where a: "a = (oa, ca)" by (cases a)
  obtain ob cb where b: "b = (ob, cb)" by (cases b)
  from assms a b have c: "cb = ca" by (auto simp: agree_on_def)
  from assms a b c have s: "section_of oa sec = section_of ob sec"
    and ia: "parse_inv (oa, ca)" and ib: "parse_inv (ob, ca)"
    by (auto simp: agree_on_def)
  obtain a' where a': "parse_line line (oa, ca) = Inr a'" "parse_inv a'"
    using parse_line_total[OF ia] by blast
  obtain b' where b': "parse_line line (ob, ca) = Inr b'" "parse_inv b'"
    using parse_line_total[OF ib] by blast
  have pa: "proto_free oa" and pb: "proto_free ob" using ia ib by (simp_all add: parse_inv_def)
  from parse_line_shape[of line ca] consider
    (skip) "\<forall>obj. parse_line line (obj, ca) = Inr (obj, ca)"
  | (header) key where
      "\<forall>obj. parse_line line (obj, ca) = Inr (set_section obj key, Some key)"
  | (entry) s key val where "ca = Some s"
      "\<forall>obj. parse_line line (obj, ca) =
        (case set_entry obj s key val of Inl err \<Rightarrow> Inl err | Inr obj' \<Rightarrow> Inr (obj', ca))"
    by blast
  then have "snd a' = snd b' \<and> section_of (fst a') sec = section_of (fst b') sec"
  proof cases
    case skip
    with a' b' s show ?thesis by auto
  next
    case header
    with a' b' s show ?thesis by (auto simp: section_of_set_section)
  next
    case entry
    from ia entry(1) have "parse_inv (oa, Some s)" by simp
    from set_entry_total[OF this, of key val] obtain o1
      where o1: "set_entry oa s key val = Inr o1" by blast
    from ib entry(1) have "parse_inv (ob, Some s)" by simp
    from set_entry_total[OF this, of key val] obtain o2
      where o2: "set_entry ob s key val = Inr o2" by blast
    from entry(2) o1 o2 a' b' have "a' = (o1, ca)" "b' = (o2, ca)" by simp_all
    moreover have "section_of o1 sec = section_of o2 sec"
      unfolding section_of_set_entry[OF pa o1, of sec] section_of_set_entry[OF pb o2, of sec] s
      by (rule refl)
    ultimately show ?thesis by simp
  qed
  with a b c a' b' show ?thesis by (auto simp: agree_on_def)
qed

lemma parse_lines_agree:
  "agree_on sec a b \<Longrightarrow>
   \<exists>a' b'. parse_lines ls a = Inr a' \<and> parse_lines ls b = Inr b' \<and> agree_on sec a' b'"
proof (induction ls arbitrary: a b)
  case Nil
  then show ?case by simp
next
  case (Cons l ls)
  from parse_line_agree[OF Cons.prems, of l] obtain a1 b1
    where "parse_line l a = Inr a1" "parse_line l b = Inr b1" "agree_on sec a1 b1" by blast
  with Cons.IH[of a1 b1] show ?case by simp
qed

lemma parse_line_keeps_section:
  assumes "parse_inv st" "section_of (fst st) sec \<noteq> None" "parse_line line st = Inr st'"
  shows "section_of (fst st') sec \<noteq> None"
proof -
  obtain obj cur where st: "st = (obj, cur)" by (cases st)
  obtain obj' cur' where st': "st' = (obj', cur')" by (cases st')
  from parse_line_section_of[of obj cur line obj' cur' sec] assms st st'
  show ?thesis by auto
qed

lemma parse_lines_keeps_section:
  "parse_inv st \<Longrightarrow> section_of (fst st) sec \<noteq> None \<Longrightarrow> parse_lines ls st = Inr st' \<Longrightarrow>
   section_of (fst st') sec \<noteq> None"
proof (induction ls arbitrary: st)
  case Nil
  then show ?case by simp
next
  case (Cons l ls)
  from Cons.prems(3) obtain st1 where l: "parse_line l st = Inr st1"
    and r: "parse_lines ls st1 = Inr st'"
    by (auto split: sum.splits)
  from parse_line_total[OF Cons.prems(1), of l] l have i1: "parse_inv st1" by simp
  from parse_line_keeps_section[OF Cons.prems(1,2) l] Cons.IH[OF i1 _ r] show ?case by blast
qed

lemma header_restarts_section:
  assumes h: "is_section_header h sec"
  shows "\<exists>a b sm. parse_lines (pre @ h # post) init_parse = Inr a \<and>
           parse_lines (h # post) init_parse = Inr b \<and>
           proto_free (fst a) \<and> proto_free (fst b) \<and>
           section_of (fst a) sec = Some sm \<and> section_of (fst b) sec = Some sm \<and>
           (\<forall>k. (\<forall>l \<in> set post. \<not> is_entry l k) \<longrightarrow> sm k = None)"
proof -
  obtain st1 where p: "parse_lines pre init_parse = Inr st1" and i1: "parse_inv st1"
    using parse_lines_total[OF parse_inv_init] by blast
  obtain obj1 cur1 where st1: "st1 = (obj1, cur1)" by (cases st1)
  let ?a0 = "(set_section obj1 sec, Some sec)"
  let ?b0 = "(set_section empty_cfg sec, Some sec)"
  have ha: "parse_line h st1 = Inr ?a0" using parse_line_header[OF h] st1 by simp
  have hb: "parse_line h init_parse = Inr ?b0"
    using parse_line_header[OF h, of empty_cfg None] by (simp add: init_parse_def)
  have ia: "parse_inv ?a0" using parse_line_total[OF i1, of h] ha by simp
  have ib: "parse_inv ?b0" using parse_line_total[OF parse_inv_init, of h] hb by simp
  have "agree_on sec ?a0 ?b0"
    using ia ib by (simp add: agree_on_def section_of_set_section)
  from parse_lines_agree[OF this, of post] obtain a b
    where a: "parse_lines post ?a0 = Inr a" and b: "parse_lines post ?b0 = Inr b"
      and ab: "agree_on sec a b" by blast
  have full_a: "parse_lines (pre @ h # post) init_parse = Inr a"
    using p ha a by (simp add: parse_lines_append)
  have full_b: "parse_lines (h # post) init_parse = Inr b"
    using hb b by simp
  have "section_of (fst ?a0) sec \<noteq> None" by (simp add: section_of_set_section)
  from parse_lines_keeps_section[OF ia this a] obtain sm
    where sm: "section_of (fst a) sec = Some sm" by auto
  have abs0: "absent_in sec k ?a0" for k by (simp add: absent_in_def section_of_set_section)
  have nk: "sm k = None" if "\<forall>l \<in> set post. \<not> is_entry l k" for k
    using parse_lines_absent[OF ia abs0 that a] sm by (simp add: absent_in_def)
  from ab sm have "section_of (fst b) sec = Some sm" by (simp add: agree_on_def)
  moreover from ab have "proto_free (fst a)" "proto_free (fst b)"
    by (simp_all add: agree_on_def parse_inv_def)
  ultimately show ?thesis using full_a full_b sm nk by blast
qed

lemma cfg_get_section:
  "proto_free m \<Longrightarrow> section_of m sec = Some sm \<Longrightarrow> cfg_get e m sec = JObject sm"
  by (auto simp: cfg_get_def section_of_def proto_free_def split: option.splits if_splits)

subsection \<open>Locating and loading\<close>

lemma find_loop_cfg: "cfg (snd (find_loop e ps w)) = cfg w"
  by (induction ps arbitrary: w) (auto simp: Let_def)


lemma find_loop_calls:
  "ps \<noteq> [] \<Longrightarrow> length (fs_calls w) < length (fs_calls (snd (find_loop e ps w)))"
proof (induction ps arbitrary: w)
  case Nil
  then show ?case by simp
next
  case (Cons p ps)
  show ?case
  proof (cases ps)
    case Nil
    then show ?thesis by (simp add: Let_def)
  next
    case (Cons q qs)
    with Cons.IH[of "w\<lparr>fs_calls := fs_calls w @ [ExistsSync p]\<rparr>"]
    show ?thesis by (auto simp: Let_def)
  qed
qed

lemma find_models_file_throws:
  "cwd e = Inl err \<Longrightarrow> find_models_file e w = (Inl err, w)"
  by (simp add: find_models_file_def)

lemma find_models_file_returns:
  "cwd e = Inr d \<Longrightarrow>
   \<exists>r w1. find_models_file e w = (Inr r, w1) \<and> cfg w1 = cfg w \<and>
     length (fs_calls w) < length (fs_calls w1)"
  using find_loop_cfg[of e "candidate_paths e d" w]
    find_loop_calls[of "candidate_paths e d" w e]
  by (cases "find_loop e (candidate_paths e d) w")
     (simp add: find_models_file_def candidate_paths_def)

lemma use_defaults_not_found_result:
  "\<exists>w'. use_defaults_not_found w = (Inr get_defaults, w') \<and> cfg w' = Some get_defaults \<and>
     fs_calls w' = fs_calls w"
  by (simp add: use_defaults_not_found_def Let_def)

lemma catch_block_result:
  "\<exists>w'. catch_block err w = (Inr get_defaults, w') \<and> cfg w' = Some get_defaults \<and>
     fs_calls w' = fs_calls w"
  by (simp add: catch_block_def Let_def)

lemma try_block_result:
  "\<exists>c w'. try_block e p w = (Inr c, w') \<and> cfg w' = Some c \<and> cfg_nonempty c \<and>
     proto_free c \<and> fs_calls w' = fs_calls w @ [ReadFileSync p]"
proof (cases "readFileSync e p")
  case (Inl err)
  then show ?thesis
    using catch_block_result[of err "w\<lparr>fs_calls := fs_calls w @ [ReadFileSync p]\<rparr>"]
    by (auto simp: try_block_def Let_def get_defaults_nonempty get_defaults_proto_free)
next
  case (Inr yml)
  from parse_yaml_total[of yml] obtain m where m: "parse_yaml yml = Inr m" "proto_free m"
    by blast
  with Inr show ?thesis
    by (simp add: try_block_def Let_def parse_yaml_nonempty)
qed

lemma load_models_fresh:
  assumes "cfg w = None" "cwd e = Inr d"
  shows "\<exists>c w'. load_models e w = (Inr c, w') \<and> cfg w' = Some c \<and> cfg_nonempty c \<and>
           proto_free c \<and> length (fs_calls w) < length (fs_calls w')"
proof -
  from find_models_file_returns[OF assms(2), of w] obtain r w1
    where f: "find_models_file e w = (Inr r, w1)"
      and l: "length (fs_calls w) < length (fs_calls w1)" by blast
  show ?thesis
  proof (cases "r = None \<or> r = Some []")
    case True
    with assms(1) f l use_defaults_not_found_result[of w1] show ?thesis
      by (auto simp: load_models_def get_defaults_nonempty get_defaults_proto_free)
  next
    case False
    then obtain q where "r = Some q" "q \<noteq> []" by auto
    with assms(1) f l try_block_result[of e q w1] show ?thesis
      by (auto simp: load_models_def)
  qed
qed

lemma load_models_cached: "cfg w = Some c \<Longrightarrow> load_models e w = (Inr c, w)"
  by (simp add: load_models_def)

lemma load_models_throws:
  "cfg w = None \<Longrightarrow> cwd e = Inl err \<Longrightarrow> load_models e w = (Inl err, w)"
  by (simp add: load_models_def find_models_file_throws)

lemma load_models_outcome:
  "(\<exists>c w'. load_models e w = (Inr c, w') \<and> cfg w' = Some c) \<or>
   (\<exists>err. cfg w = None \<and> cwd e = Inl err \<and> load_models e w = (Inl err, w))"
proof (cases "cfg w")
  case (Some c)
  then show ?thesis by (simp add: load_models_cached)
next
  case None
  show ?thesis
  proof (cases "cwd e")
    case (Inl err)
    with None show ?thesis by (simp add: load_models_throws)
  next
    case (Inr d)
    from load_models_fresh[OF None Inr] show ?thesis by blast
  qed
qed

lemma load_models_wf:
  assumes "wf_world w"
  shows "wf_world (snd (load_models e w)) \<and>
         (\<forall>c. fst (load_models e w) = Inr c \<longrightarrow> cfg_nonempty c \<and> proto_free c)"
proof (cases "cfg w")
  case (Some c)
  with assms show ?thesis by (simp add: load_models_cached wf_world_def)
next
  case None
  show ?thesis
  proof (cases "cwd e")
    case (Inl err)
    with None assms show ?thesis by (simp add: load_models_throws)
  next
    case (Inr d)
    from load_models_fresh[OF None Inr] show ?thesis by (auto simp: wf_world_def)
  qed
qed


lemma load_models_read_error:
  assumes "cfg w = None" "find_models_file e w = (Inr (Some p), w1)" "p \<noteq> []"
    "readFileSync e p = Inl err"
  shows "load_models e w =
     (Inr get_defaults,
      w1\<lparr>fs_calls := fs_calls w1 @ [ReadFileSync p],
         console := console w1 @ [Error_failed err],
         cfg := Some get_defaults\<rparr>)"
  using assms by (simp add: load_models_def try_block_def catch_block_def Let_def)

lemma load_models_read_ok:
  assumes "cfg w = None" "find_models_file e w = (Inr (Some p), w1)" "p \<noteq> []"
    "readFileSync e p = Inr yml"
  shows "\<exists>m. parse_yaml yml = Inr m \<and>
           load_models e w =
             (Inr m,
              w1\<lparr>fs_calls := fs_calls w1 @ [ReadFileSync p],
                 cfg := Some m,
                 console := console w1 @ [Log_loaded p (card (dom (own_props m)))]\<rparr>)"
proof -
  obtain m where "parse_yaml yml = Inr m" using parse_yaml_total by blast
  with assms show ?thesis by (simp add: load_models_def try_block_def Let_def)
qed

subsection \<open>Resolution\<close>

lemma get_model_world: "snd (get_model e s p w) = snd (load_models e w)"
  by (cases "load_models e w")
     (auto simp: get_model_def split: sum.splits)

lemma reachable_wf: "reachable w \<Longrightarrow> wf_world w"
proof (induction rule: reachable.induct)
  case reach_init
  then show ?case by (simp add: wf_world_def init_world_def)
next
  case (reach_load w e)
  with load_models_wf[of w e] show ?case by simp
next
  case (reach_get w e sector provider)
  with load_models_wf[of w e] show ?case by (simp add: get_model_world)
qed



lemma chain_get_own:
  assumes "sec_nonempty sm" "p \<noteq> ''__proto__''" "object_prototype e p = JUndefined"
  shows "chain_get e (JObject sm) p = Inr (case sm p of None \<Rightarrow> JUndefined | Some v \<Rightarrow> JStr v)"
  using assms by (simp add: chain_get_def split: option.splits)

lemma get_model_own_chain:
  assumes "reachable w" and "load_models e w = (Inr c, w')" and "proto_obj c = None"
    and "s \<noteq> ''__proto__''" and "p \<noteq> ''__proto__''"
    and "object_prototype e s = JUndefined" and "object_prototype e p = JUndefined"
    and "object_prototype e ''semantic'' = JUndefined"
  shows "get_model e s p w = (Inr (JStr (resolve_spec c s p)), w')"
proof -
  from load_models_wf[OF reachable_wf[OF assms(1)], of e] assms(2)
  have ne: "cfg_nonempty c" by simp
  have r: "chain_get e (cfg_get e c k) p =
             Inr (case entry c k p of None \<Rightarrow> JUndefined | Some v \<Rightarrow> JStr v) \<and>
           entry c k p \<noteq> Some []"
    if "k \<noteq> ''__proto__''" "object_prototype e k = JUndefined" for k
  proof (cases "own_props c k")
    case None
    with that assms(3) show ?thesis by (simp add: cfg_get_def chain_get_def entry_def)
  next
    case (Some sm)
    with ne have "sec_nonempty sm" by (auto simp: cfg_nonempty_def)
    with Some assms(5,7) show ?thesis
      by (auto simp: cfg_get_def entry_def chain_get_own sec_nonempty_def)
  qed
  have sem: "''semantic'' \<noteq> ''__proto__''" by simp
  from r[OF assms(4,6)] r[OF sem assms(8)] assms(2) show ?thesis
    by (cases "entry c s p"; cases "entry c ''semantic'' p")
       (simp_all add: get_model_def resolve_spec_def)
qed




subsection \<open>Runs in the example environments\<close>

lemma cfg_init: "cfg init_world = None"
  by (simp add: init_world_def)

lemma posix_examples:
  "posix_join ''/srv/om/backend/src/core'' ''../../../models.yml'' = ''/srv/om/models.yml''"
  "posix_join ''/srv/om/backend'' ''models.yml'' = ''/srv/om/backend/models.yml''"
  by (simp_all add: posix_join_def)

lemma find_with_file:
  "find_models_file (env_with_file content) init_world =
     (Inr (Some ''/app/models.yml''),
      \<lparr>cfg = None,
       fs_calls = [ExistsSync ''/srv/om/models.yml'', ExistsSync ''/app/models.yml''],
       console = []\<rparr>)"
  by (simp add: find_models_file_def candidate_paths_def env_with_file_def init_world_def
        posix_examples Let_def)

lemma find_unreadable:
  "find_models_file env_unreadable init_world =
     (Inr (Some ''/app/models.yml''),
      \<lparr>cfg = None,
       fs_calls = [ExistsSync ''/srv/om/models.yml'', ExistsSync ''/app/models.yml''],
       console = []\<rparr>)"
  by (simp add: find_models_file_def candidate_paths_def env_unreadable_def init_world_def
        posix_examples Let_def)

lemma parse_foo_bar: "parse_yaml ''foo: bar'' = Inr empty_cfg"
  by (simp add: parse_yaml_def parse_line_def trim_def startsWith_def is_space_def Let_def)

lemma load_foo_bar:
  "load_models (env_with_file ''foo: bar'') init_world =
     (Inr empty_cfg,
      \<lparr>cfg = Some empty_cfg,
       fs_calls = [ExistsSync ''/srv/om/models.yml'', ExistsSync ''/app/models.yml'',
                   ReadFileSync ''/app/models.yml''],
       console = [Log_loaded ''/app/models.yml'' 0]\<rparr>)"
proof -
  have r: "readFileSync (env_with_file ''foo: bar'') ''/app/models.yml'' = Inr ''foo: bar''"
    by (simp add: env_with_file_def)
  have k: "card (dom (own_props empty_cfg)) = 0" by (simp add: empty_cfg_def)
  show ?thesis
    by (simp add: load_models_def cfg_init find_with_file try_block_def parse_foo_bar r k Let_def)
qed

lemma parse_small:
  "parse_yaml ''semantic:\<newline>  openai: m1'' =
     Inr \<lparr>own_props = [''semantic'' \<mapsto> [''openai'' \<mapsto> ''m1'']], proto_obj = None\<rparr>"
  by (simp add: parse_yaml_def parse_line_def trim_def startsWith_def is_space_def Let_def
        empty_cfg_def set_section_def set_entry_def)

lemma load_small:
  "load_models (env_with_file ''semantic:\<newline>  openai: m1'') init_world =
     (Inr \<lparr>own_props = [''semantic'' \<mapsto> [''openai'' \<mapsto> ''m1'']], proto_obj = None\<rparr>,
      \<lparr>cfg = Some \<lparr>own_props = [''semantic'' \<mapsto> [''openai'' \<mapsto> ''m1'']], proto_obj = None\<rparr>,
       fs_calls = [ExistsSync ''/srv/om/models.yml'', ExistsSync ''/app/models.yml'',
                   ReadFileSync ''/app/models.yml''],
       console = [Log_loaded ''/app/models.yml'' 1]\<rparr>)"
proof -
  have r: "readFileSync (env_with_file ''semantic:\<newline>  openai: m1'') ''/app/models.yml''
             = Inr ''semantic:\<newline>  openai: m1''"
    by (simp add: env_with_file_def)
  show ?thesis
    by (simp add: load_models_def cfg_init find_with_file try_block_def parse_small r Let_def)
qed

lemma load_no_file:
  "load_models env_no_file init_world =
     (Inr get_defaults,
      \<lparr>cfg = Some get_defaults,
       fs_calls = [ExistsSync ''/srv/om/models.yml'', ExistsSync ''/app/models.yml'',
                   ExistsSync ''/srv/om/backend/models.yml''],
       console = [Warn_not_found]\<rparr>)"
  by (simp add: load_models_def cfg_init find_models_file_def candidate_paths_def
        env_no_file_def init_world_def posix_examples use_defaults_not_found_def Let_def)

lemma defaults_no_constructor:
  "own_props get_defaults ''constructor'' = None"
  "own_props get_defaults ''toString'' = None"
  "own_props get_defaults ''hasOwnProperty'' = None"
  "proto_obj get_defaults = None"
  by (simp_all add: get_defaults_def)

lemma defaults_semantic:
  "own_props get_defaults ''semantic'' =
     Some [''ollama'' \<mapsto> ''nomic-embed-text'',
         ''openai'' \<mapsto> ''text-embedding-3-small'',
         ''gemini'' \<mapsto> ''gemini-embedding-001'',
         ''aws'' \<mapsto> ''amazon.titan-embed-text-v2:0'',
         ''local'' \<mapsto> ''all-MiniLM-L6-v2'']"
  by (simp add: get_defaults_def)

lemma runtime_no_file:
  "object_prototype env_no_file = node_object_prototype"
  "get_property env_no_file = node_get_property"
  by (simp_all add: env_no_file_def)

lemma proto_header_example:
  "parse_yaml ''__proto__:\<newline>  k: v\<newline>__proto__:\<newline>  j: u''
     = Inr \<lparr>own_props = Map.empty, proto_obj = Some [''j'' \<mapsto> ''u'']\<rparr>"
  by (simp add: parse_yaml_def parse_line_def trim_def startsWith_def is_space_def Let_def
        empty_cfg_def set_section_def set_entry_def)

subsection \<open>The resolution chain away from inherited names\<close>

text \<open>
  When the configuration file has no \<open>__proto__\<close> section and neither the sector, nor
  the provider, nor \<open>semantic\<close> names a property of \<open>Object.prototype\<close>, \<open>get_model\<close>
  returns the chain of the specification over the entries of the mapping: the code tests
  truthiness where the specification tests presence, and the two agree because no stored
  value is empty.
\<close>

lemma resolve_spec_nonempty: "cfg_nonempty c \<Longrightarrow> resolve_spec c s p \<noteq> []"
  by (auto simp: resolve_spec_def entry_def cfg_nonempty_def sec_nonempty_def
        split: option.splits)

lemma parse_two_sections:
  "parse_yaml ''semantic:\<newline>  openai: m1\<newline>episodic:\<newline>  openai: m2'' =
     Inr \<lparr>own_props = [''semantic'' \<mapsto> [''openai'' \<mapsto> ''m1''],
                        ''episodic'' \<mapsto> [''openai'' \<mapsto> ''m2'']],
          proto_obj = None\<rparr>"
  by (simp add: parse_yaml_def parse_line_def trim_def startsWith_def is_space_def Let_def
        empty_cfg_def set_section_def set_entry_def)

lemma own_chain_example:
  "fst (get_model (env_with_file ''semantic:\<newline>  openai: m1\<newline>episodic:\<newline>  openai: m2'')
          ''episodic'' ''openai'' init_world) = Inr (JStr ''m2'') \<and>
   fst (get_model (env_with_file ''semantic:\<newline>  openai: m1\<newline>episodic:\<newline>  openai: m2'')
          ''x'' ''openai'' init_world) = Inr (JStr ''m1'') \<and>
   fst (get_model (env_with_file ''semantic:\<newline>  openai: m1\<newline>episodic:\<newline>  openai: m2'')
          ''x'' ''gemini'' init_world) = Inr (JStr ''nomic-embed-text'')"
proof -
  let ?e = "env_with_file ''semantic:\<newline>  openai: m1\<newline>episodic:\<newline>  openai: m2''"
  let ?c = "\<lparr>own_props = [''semantic'' \<mapsto> [''openai'' \<mapsto> ''m1''],
                        ''episodic'' \<mapsto> [''openai'' \<mapsto> ''m2'']],
          proto_obj = None\<rparr>"
  have r: "readFileSync ?e ''/app/models.yml''
             = Inr ''semantic:\<newline>  openai: m1\<newline>episodic:\<newline>  openai: m2''"
    by (simp add: env_with_file_def)
  have k: "card (dom (own_props ?c)) = 2" by simp
  have l: "load_models ?e init_world =
     (Inr ?c,
      \<lparr>cfg = Some ?c,
       fs_calls = [ExistsSync ''/srv/om/models.yml'', ExistsSync ''/app/models.yml'',
                   ReadFileSync ''/app/models.yml''],
       console = [Log_loaded ''/app/models.yml'' 2]\<rparr>)"
    by (simp add: load_models_def cfg_init find_with_file try_block_def parse_two_sections r
          Let_def)
  have u: "object_prototype ?e ''episodic'' = JUndefined" "object_prototype ?e ''x'' = JUndefined"
    "object_prototype ?e ''openai'' = JUndefined" "object_prototype ?e ''gemini'' = JUndefined"
    "object_prototype ?e ''semantic'' = JUndefined"
    by (simp_all add: env_with_file_def node_object_prototype_def object_prototype_functions_def)
  have p: "proto_obj ?c = None" by simp
  have 1: "get_model ?e ''episodic'' ''openai'' init_world =
             (Inr (JStr (resolve_spec ?c ''episodic'' ''openai'')), snd (load_models ?e init_world))"
    using get_model_own_chain[OF reach_init l p _ _ u(1) u(3) u(5)] by (simp add: l)
  have 2: "get_model ?e ''x'' ''openai'' init_world =
             (Inr (JStr (resolve_spec ?c ''x'' ''openai'')), snd (load_models ?e init_world))"
    using get_model_own_chain[OF reach_init l p _ _ u(2) u(3) u(5)] by (simp add: l)
  have 3: "get_model ?e ''x'' ''gemini'' init_world =
             (Inr (JStr (resolve_spec ?c ''x'' ''gemini'')), snd (load_models ?e init_world))"
    using get_model_own_chain[OF reach_init l p _ _ u(2) u(4) u(5)] by (simp add: l)
  show ?thesis
    by (simp add: 1 2 3 resolve_spec_def entry_def)
qed

section \<open>The claims\<close>

text \<open>
  Claim C1. For every sector \<open>s\<close> and provider \<open>p\<close>, \<open>get_model\<close> returns the entry
  \<open>mapping[s][p]\<close> of the loaded mapping if it is present, otherwise
  \<open>mapping["semantic"][p]\<close> if it is present, otherwise the literal \<open>nomic-embed-text\<close>.
  The code breaks this at names that a plain object inherits. With no configuration file
  the loaded mapping is the defaults table, which has no entry for \<open>constructor\<close> and no
  entry \<open>name\<close> under \<open>semantic\<close>, so the chain gives the literal; the code returns
  \<open>Object\<close>, the name of the function inherited under \<open>constructor\<close>. Away from inherited
  names the chain holds (lemma \<open>get_model_own_chain\<close>).
\<close>

theorem get_model_inherited_name:
  "fst (load_models env_no_file init_world) = Inr get_defaults \<and>
   entry get_defaults ''constructor'' ''name'' = None \<and>
   entry get_defaults ''semantic'' ''name'' = None \<and>
   resolve_spec get_defaults ''constructor'' ''name'' = ''nomic-embed-text'' \<and>
   fst (get_model env_no_file ''constructor'' ''name'' init_world) = Inr (JStr ''Object'')"
proof -
  have a: "entry get_defaults ''constructor'' ''name'' = None"
    "entry get_defaults ''semantic'' ''name'' = None"
    by (simp_all add: entry_def defaults_no_constructor defaults_semantic)
  then have b: "resolve_spec get_defaults ''constructor'' ''name'' = ''nomic-embed-text''"
    by (simp add: resolve_spec_def)
  have c: "fst (get_model env_no_file ''constructor'' ''name'' init_world) = Inr (JStr ''Object'')"
    by (simp add: get_model_def load_no_file cfg_get_def chain_get_def defaults_no_constructor
          runtime_no_file node_object_prototype_def node_get_property_def)
  from a b c show ?thesis by (simp add: load_no_file)
qed

text \<open>
  Claim C2, as the specification states it: a located file whose content is the top-level
  line \<open>foo: bar\<close> makes \<open>load_models\<close> return the defaults. The code returns the empty
  mapping instead: the line is skipped by \<open>if (indent === 0 && val) continue\<close>, the parser
  does not throw, and the \<open>catch\<close> block is not entered.
\<close>

theorem malformed_file_counterexample:
  "fst (find_models_file (env_with_file ''foo: bar'') init_world)
     = Inr (Some ''/app/models.yml'') \<and>
   readFileSync (env_with_file ''foo: bar'') ''/app/models.yml'' = Inr ''foo: bar'' \<and>
   fst (load_models (env_with_file ''foo: bar'') init_world) = Inr empty_cfg \<and>
   fst (load_models (env_with_file ''foo: bar'') init_world) \<noteq> Inr get_defaults"
proof -
  have "own_props empty_cfg ''semantic'' \<noteq> own_props get_defaults ''semantic''"
    by (simp add: empty_cfg_def get_defaults_def)
  then have "empty_cfg \<noteq> get_defaults" by auto
  then show ?thesis
    by (simp add: load_foo_bar find_with_file) (simp add: env_with_file_def)
qed

text \<open>
  Claim C2, amended. With an empty cache and a located file: if reading the file throws,
  \<open>load_models\<close> returns the defaults and caches them; if the file is read,
  \<open>load_models\<close> returns and caches the mapping parsed from its content. A top-level line
  that carries a value is skipped: it leaves the loop state as it is, and removing it from
  a text does not change the result. \<open>foo: bar\<close> is such a line, and the content
  \<open>foo: bar\<close> parses to the empty mapping.
\<close>

theorem read_error_defaults_else_parsed:
  assumes "cfg w = None" and "find_models_file e w = (Inr (Some p), w1)" and "p \<noteq> []"
  shows "(\<forall>err. readFileSync e p = Inl err \<longrightarrow>
            load_models e w =
              (Inr get_defaults,
               w1\<lparr>fs_calls := fs_calls w1 @ [ReadFileSync p],
                  console := console w1 @ [Error_failed err],
                  cfg := Some get_defaults\<rparr>)) \<and>
         (\<forall>yml. readFileSync e p = Inr yml \<longrightarrow>
            (\<exists>m. parse_yaml yml = Inr m \<and>
               load_models e w =
                 (Inr m,
                  w1\<lparr>fs_calls := fs_calls w1 @ [ReadFileSync p],
                     cfg := Some m,
                     console := console w1 @ [Log_loaded p (card (dom (own_props m)))]\<rparr>))) \<and>
         (\<forall>line st. is_top_level_scalar line \<longrightarrow> parse_line line st = Inr st) \<and>
         (\<forall>pre l post. (\<forall>x \<in> set (pre @ l # post). CHR 0x0A \<notin> set x) \<and> is_top_level_scalar l \<longrightarrow>
            parse_yaml (join_str CHR 0x0A (pre @ l # post)) =
              parse_yaml (join_str CHR 0x0A (pre @ post))) \<and>
         is_top_level_scalar ''foo: bar'' \<and>
         parse_yaml ''foo: bar'' = Inr empty_cfg"
proof -
  have skip: "parse_yaml (join_str CHR 0x0A (pre @ l # post)) =
              parse_yaml (join_str CHR 0x0A (pre @ post))"
    if "\<forall>x \<in> set (pre @ l # post). CHR 0x0A \<notin> set x" "is_top_level_scalar l"
    for pre l post
  proof -
    from that(1) have a: "\<forall>x \<in> set (pre @ l # post). CHR 0x0A \<notin> set x"
      and b: "\<forall>x \<in> set (pre @ post). CHR 0x0A \<notin> set x" by auto
    show ?thesis
      by (simp only: parse_yaml_join[OF a] parse_yaml_join[OF b]
            parse_lines_top_level_scalar[OF that(2)])
  qed
  have fb: "is_top_level_scalar ''foo: bar''"
    by (simp add: is_top_level_scalar_def trim_def is_space_def)
  from load_models_read_error[OF assms] load_models_read_ok[OF assms]
    parse_line_top_level_scalar skip fb parse_foo_bar
  show ?thesis by blast
qed

theorem read_error_defaults_else_parsed_witness:
  "cfg init_world = None \<and>
   find_models_file env_unreadable init_world =
     (Inr (Some ''/app/models.yml''),
      \<lparr>cfg = None,
       fs_calls = [ExistsSync ''/srv/om/models.yml'', ExistsSync ''/app/models.yml''],
       console = []\<rparr>) \<and>
   ''/app/models.yml'' \<noteq> [] \<and>
   readFileSync env_unreadable ''/app/models.yml'' = Inl (FsError ''EACCES'') \<and>
   load_models env_unreadable init_world =
     (Inr get_defaults,
      \<lparr>cfg = Some get_defaults,
       fs_calls = [ExistsSync ''/srv/om/models.yml'', ExistsSync ''/app/models.yml'',
                   ReadFileSync ''/app/models.yml''],
       console = [Error_failed (FsError ''EACCES'')]\<rparr>) \<and>
   readFileSync (env_with_file ''foo: bar'') ''/app/models.yml'' = Inr ''foo: bar'' \<and>
   load_models (env_with_file ''foo: bar'') init_world =
     (Inr empty_cfg,
      \<lparr>cfg = Some empty_cfg,
       fs_calls = [ExistsSync ''/srv/om/models.yml'', ExistsSync ''/app/models.yml'',
                   ReadFileSync ''/app/models.yml''],
       console = [Log_loaded ''/app/models.yml'' 0]\<rparr>) \<and>
   CHR 0x0A \<notin> set ''a:'' \<and> CHR 0x0A \<notin> set ''b: c'' \<and> CHR 0x0A \<notin> set ''  k: v'' \<and>
   is_top_level_scalar ''b: c'' \<and>
   parse_yaml ''a:\<newline>b: c\<newline>  k: v'' = parse_yaml ''a:\<newline>  k: v''"
proof -
  have r: "readFileSync env_unreadable ''/app/models.yml'' = Inl (FsError ''EACCES'')"
    by (simp add: env_unreadable_def)
  have r2: "readFileSync (env_with_file ''foo: bar'') ''/app/models.yml'' = Inr ''foo: bar''"
    by (simp add: env_with_file_def)
  have ne: "''/app/models.yml'' \<noteq> []" by simp
  have k: "card (dom (own_props empty_cfg)) = 0" by (simp add: empty_cfg_def)
  have sc: "is_top_level_scalar ''b: c''"
    by (simp add: is_top_level_scalar_def trim_def is_space_def)
  note t1 = read_error_defaults_else_parsed[OF cfg_init find_unreadable ne]
  note t2 = read_error_defaults_else_parsed[OF cfg_init find_with_file[of "''foo: bar''"] ne]
  from t1 r have a: "load_models env_unreadable init_world =
     (Inr get_defaults,
      \<lparr>cfg = Some get_defaults,
       fs_calls = [ExistsSync ''/srv/om/models.yml'', ExistsSync ''/app/models.yml'',
                   ReadFileSync ''/app/models.yml''],
       console = [Error_failed (FsError ''EACCES'')]\<rparr>)"
    by simp
  from t2 r2 have b: "load_models (env_with_file ''foo: bar'') init_world =
     (Inr empty_cfg,
      \<lparr>cfg = Some empty_cfg,
       fs_calls = [ExistsSync ''/srv/om/models.yml'', ExistsSync ''/app/models.yml'',
                   ReadFileSync ''/app/models.yml''],
       console = [Log_loaded ''/app/models.yml'' 0]\<rparr>)"
    by (auto simp: k)
  from t1 have "(\<forall>x \<in> set ([''a:''] @ ''b: c'' # [''  k: v'']). CHR 0x0A \<notin> set x) \<and>
       is_top_level_scalar ''b: c'' \<longrightarrow>
     parse_yaml (join_str CHR 0x0A ([''a:''] @ ''b: c'' # [''  k: v''])) =
       parse_yaml (join_str CHR 0x0A ([''a:''] @ [''  k: v'']))"
    by blast
  with sc have c: "parse_yaml ''a:\<newline>b: c\<newline>  k: v'' = parse_yaml ''a:\<newline>  k: v''"
    by simp
  from a b c r r2 sc show ?thesis by (simp add: cfg_init find_unreadable)
qed



text \<open>
  Claim C4. \<open>parse_yaml\<close> maps the five lines \<open>semantic:\<close>, \<open>  openai: custom-model-A\<close>,
  \<open># comment line\<close>, \<open>episodic:\<close>, \<open>  local: custom-model-B\<close> to the mapping with exactly
  the entries \<open>semantic.openai = custom-model-A\<close> and \<open>episodic.local = custom-model-B\<close>.
  A blank line, or a line whose trimmed content starts with \<open>#\<close>, is skipped: removing it
  from a text does not change the result.
\<close>

theorem parse_yaml_sample_and_skips:
  assumes "\<forall>x \<in> set (pre @ l # post). CHR 0x0A \<notin> set x"
    and "trim l = [] \<or> startsWith (trim l) ''#''"
  shows "parse_yaml
           ''semantic:\<newline>  openai: custom-model-A\<newline># comment line\<newline>episodic:\<newline>  local: custom-model-B''
         = Inr \<lparr>own_props =
                  [''semantic'' \<mapsto> [''openai'' \<mapsto> ''custom-model-A''],
                   ''episodic'' \<mapsto> [''local'' \<mapsto> ''custom-model-B'']],
                proto_obj = None\<rparr> \<and>
         parse_yaml (join_str CHR 0x0A (pre @ l # post)) =
           parse_yaml (join_str CHR 0x0A (pre @ post))"
proof -
  have s: "parse_yaml
           ''semantic:\<newline>  openai: custom-model-A\<newline># comment line\<newline>episodic:\<newline>  local: custom-model-B''
         = Inr \<lparr>own_props =
                  [''semantic'' \<mapsto> [''openai'' \<mapsto> ''custom-model-A''],
                   ''episodic'' \<mapsto> [''local'' \<mapsto> ''custom-model-B'']],
                proto_obj = None\<rparr>"
    by (simp add: parse_yaml_def parse_line_def trim_def startsWith_def is_space_def Let_def
          empty_cfg_def set_section_def set_entry_def)
  from assms(1) have a: "\<forall>x \<in> set (pre @ l # post). CHR 0x0A \<notin> set x"
    and b: "\<forall>x \<in> set (pre @ post). CHR 0x0A \<notin> set x" by auto
  have "parse_yaml (join_str CHR 0x0A (pre @ l # post)) =
           parse_yaml (join_str CHR 0x0A (pre @ post))"
    by (simp only: parse_yaml_join[OF a] parse_yaml_join[OF b] parse_lines_skip[OF assms(2)])
  with s show ?thesis by blast
qed

theorem parse_yaml_sample_and_skips_witness:
  "CHR 0x0A \<notin> set ''a:'' \<and> CHR 0x0A \<notin> set ''  # note'' \<and> CHR 0x0A \<notin> set ''  k: v'' \<and>
   join_str CHR 0x0A ([''a:''] @ ''  # note'' # [''  k: v'']) = ''a:\<newline>  # note\<newline>  k: v'' \<and>
   join_str CHR 0x0A ([''a:''] @ [''  k: v'']) = ''a:\<newline>  k: v'' \<and>
   startsWith (trim ''  # note'') ''#'' \<and>
   parse_yaml ''a:\<newline>  # note\<newline>  k: v'' = parse_yaml ''a:\<newline>  k: v'' \<and>
   parse_yaml ''a:\<newline>  k: v'' = Inr \<lparr>own_props = [''a'' \<mapsto> [''k'' \<mapsto> ''v'']], proto_obj = None\<rparr>"
proof -
  have h1: "\<forall>x \<in> set ([''a:''] @ ''  # note'' # [''  k: v'']). CHR 0x0A \<notin> set x"
    by simp
  have h2: "trim ''  # note'' = [] \<or> startsWith (trim ''  # note'') ''#''"
    by (simp add: trim_def startsWith_def is_space_def)
  have v: "parse_yaml ''a:\<newline>  k: v'' = Inr \<lparr>own_props = [''a'' \<mapsto> [''k'' \<mapsto> ''v'']], proto_obj = None\<rparr>"
    by (simp add: parse_yaml_def parse_line_def trim_def startsWith_def is_space_def Let_def
          empty_cfg_def set_section_def set_entry_def)
  have h3: "startsWith (trim ''  # note'') ''#''"
    by (simp add: trim_def startsWith_def is_space_def)
  from parse_yaml_sample_and_skips[OF h1 h2] h3 v show ?thesis by simp
qed

text \<open>
  Claim C5. \<open>load_models\<close> is idempotent after the first call. Under a fixed environment a
  second call does what the first did. Once a call has returned (the cache was populated,
  or \<open>process.cwd()\<close> returned), it has cached what it returned, and a second call, under
  any environment, returns the same mapping and leaves the state as it is: it makes no
  call to the file system and writes nothing to the console. A call on a populated cache
  returns the cache and the unchanged state. A call on an empty cache makes at least one
  call to the file system when \<open>process.cwd()\<close> returns; when \<open>process.cwd()\<close> throws,
  the exception leaves \<open>load_models\<close> and the state is unchanged.
\<close>

theorem load_models_idempotent:
  "load_models e (snd (load_models e w)) = load_models e w \<and>
   (cfg w \<noteq> None \<or> (\<exists>d. cwd e = Inr d) \<longrightarrow>
      (\<exists>c. fst (load_models e w) = Inr c \<and> cfg (snd (load_models e w)) = Some c) \<and>
      load_models e' (snd (load_models e w)) = load_models e w) \<and>
   (\<forall>c. cfg w = Some c \<longrightarrow> load_models e' w = (Inr c, w)) \<and>
   (\<forall>d. cfg w = None \<and> cwd e = Inr d \<longrightarrow>
      length (fs_calls w) < length (fs_calls (snd (load_models e w)))) \<and>
   (\<forall>err. cfg w = None \<and> cwd e = Inl err \<longrightarrow> load_models e w = (Inl err, w))"
proof -
  have same: "load_models e (snd (load_models e w)) = load_models e w"
    using load_models_outcome[of e w] by (auto simp: load_models_cached)
  have ret: "(\<exists>c. fst (load_models e w) = Inr c \<and> cfg (snd (load_models e w)) = Some c) \<and>
      load_models e' (snd (load_models e w)) = load_models e w"
    if "cfg w \<noteq> None \<or> (\<exists>d. cwd e = Inr d)"
    using load_models_outcome[of e w] that by (auto simp: load_models_cached)
  have fresh: "length (fs_calls w) < length (fs_calls (snd (load_models e w)))"
    if "cfg w = None" "cwd e = Inr d" for d
    using load_models_fresh[OF that] by auto
  from same ret fresh load_models_cached load_models_throws show ?thesis by blast
qed

theorem load_models_idempotent_witness:
  "cfg init_world = None \<and>
   cwd (env_with_file ''semantic:\<newline>  openai: m1'') = Inr ''/srv/om/backend'' \<and>
   load_models (env_with_file ''semantic:\<newline>  openai: m1'') init_world
   = (Inr \<lparr>own_props = [''semantic'' \<mapsto> [''openai'' \<mapsto> ''m1'']], proto_obj = None\<rparr>,
      \<lparr>cfg = Some \<lparr>own_props = [''semantic'' \<mapsto> [''openai'' \<mapsto> ''m1'']], proto_obj = None\<rparr>,
       fs_calls = [ExistsSync ''/srv/om/models.yml'', ExistsSync ''/app/models.yml'',
                   ReadFileSync ''/app/models.yml''],
       console = [Log_loaded ''/app/models.yml'' 1]\<rparr>) \<and>
   load_models env_cwd_removed
     (snd (load_models (env_with_file ''semantic:\<newline>  openai: m1'') init_world))
   = (Inr \<lparr>own_props = [''semantic'' \<mapsto> [''openai'' \<mapsto> ''m1'']], proto_obj = None\<rparr>,
      \<lparr>cfg = Some \<lparr>own_props = [''semantic'' \<mapsto> [''openai'' \<mapsto> ''m1'']], proto_obj = None\<rparr>,
       fs_calls = [ExistsSync ''/srv/om/models.yml'', ExistsSync ''/app/models.yml'',
                   ReadFileSync ''/app/models.yml''],
       console = [Log_loaded ''/app/models.yml'' 1]\<rparr>)"
proof -
  have c: "cwd (env_with_file ''semantic:\<newline>  openai: m1'') = Inr ''/srv/om/backend''"
    by (simp add: env_with_file_def)
  from load_models_idempotent[of "env_with_file ''semantic:\<newline>  openai: m1''" init_world
      env_cwd_removed] c
  have "load_models env_cwd_removed
     (snd (load_models (env_with_file ''semantic:\<newline>  openai: m1'') init_world))
     = load_models (env_with_file ''semantic:\<newline>  openai: m1'') init_world"
    by blast
  with c show ?thesis by (simp add: load_small cfg_init)
qed

text \<open>
  Claim C6. No exception escapes \<open>load_models\<close> or \<open>get_model\<close>. The code breaks this in
  two places. The read \<open>cfg[sector]?.[provider]\<close> of \<open>get_model\<close> is outside any
  \<open>try\<close>: for the sector \<open>toString\<close> it finds the inherited function, and the read of
  \<open>caller\<close> on it throws a TypeError. \<open>process.cwd()\<close> is called by
  \<open>find_models_file\<close> before the \<open>try\<close> block of \<open>load_models\<close>: when the working
  directory has been removed its exception leaves \<open>load_models\<close> and \<open>get_model\<close>.
  The rest of the claim holds: the parser never throws (lemma \<open>parse_yaml_total\<close>) and
  an error of the read of the file is caught (lemma \<open>load_models_read_error\<close>).
\<close>

theorem exception_escapes:
  "fst (get_model env_no_file ''toString'' ''caller'' init_world)
     = Inl (TypeError ''caller, callee, and arguments may not be accessed'') \<and>
   fst (load_models env_cwd_removed init_world)
     = Inl (FsError ''ENOENT: no such file or directory, uv_cwd'') \<and>
   fst (get_model env_cwd_removed ''semantic'' ''openai'' init_world)
     = Inl (FsError ''ENOENT: no such file or directory, uv_cwd'')"
proof -
  have a: "fst (get_model env_no_file ''toString'' ''caller'' init_world)
     = Inl (TypeError ''caller, callee, and arguments may not be accessed'')"
    by (simp add: get_model_def load_no_file cfg_get_def chain_get_def defaults_no_constructor
          runtime_no_file node_object_prototype_def node_get_property_def
          object_prototype_functions_def)
  have c: "cwd env_cwd_removed = Inl (FsError ''ENOENT: no such file or directory, uv_cwd'')"
    by (simp add: env_cwd_removed_def)
  have b: "load_models env_cwd_removed init_world
     = (Inl (FsError ''ENOENT: no such file or directory, uv_cwd''), init_world)"
    by (rule load_models_throws[OF cfg_init c])
  from a b show ?thesis by (simp add: get_model_def)
qed



text \<open>
  Claim C8. For every provider, \<open>get_provider_config\<close> returns the empty configuration
  object.
\<close>

theorem get_provider_config_empty:
  "get_provider_config provider = Map.empty \<and> dom (get_provider_config provider) = {}"
  by (simp add: get_provider_config_def)

text \<open>
  Claim C9. A section header at indentation 0 for a section resets that section to the
  empty mapping, whatever came before it: in the result the read \<open>m[sec]\<close> gives an
  object, its content is the one obtained from the header and the lines after it alone,
  and a key that no line after the header records is absent from it. This holds in
  particular for the second occurrence of a header and the entries recorded under the
  first.
\<close>

theorem repeated_header_resets_section:
  assumes "\<forall>x \<in> set (pre @ h # post). CHR 0x0A \<notin> set x"
    and "is_section_header h sec"
  shows "\<exists>m m' sm. parse_yaml (join_str CHR 0x0A (pre @ h # post)) = Inr m \<and>
           parse_yaml (join_str CHR 0x0A (h # post)) = Inr m' \<and>
           cfg_get e m sec = JObject sm \<and> cfg_get e m' sec = JObject sm \<and>
           section_of m sec = Some sm \<and> section_of m' sec = Some sm \<and>
           (\<forall>k. (\<forall>l \<in> set post. \<not> is_entry l k) \<longrightarrow> sm k = None)"
proof -
  from assms(1) have a: "\<forall>x \<in> set (pre @ h # post). CHR 0x0A \<notin> set x"
    and b: "\<forall>x \<in> set (h # post). CHR 0x0A \<notin> set x" by auto
  from header_restarts_section[OF assms(2), of pre post] obtain sa sb sm where
    r: "parse_lines (pre @ h # post) init_parse = Inr sa"
    "parse_lines (h # post) init_parse = Inr sb"
    "proto_free (fst sa)" "proto_free (fst sb)"
    "section_of (fst sa) sec = Some sm" "section_of (fst sb) sec = Some sm"
    "\<forall>k. (\<forall>l \<in> set post. \<not> is_entry l k) \<longrightarrow> sm k = None"
    by blast
  from cfg_get_section[OF r(3,5), of e] cfg_get_section[OF r(4,6), of e] r
  show ?thesis
    by (simp add: parse_yaml_join[OF a] parse_yaml_join[OF b])
qed

theorem repeated_header_resets_section_witness:
  "join_str CHR 0x0A
     ([''semantic:'', ''  openai: m1'', ''  local: m2''] @ ''semantic:'' # [''  local: m3''])
     = ''semantic:\<newline>  openai: m1\<newline>  local: m2\<newline>semantic:\<newline>  local: m3'' \<and>
   CHR 0x0A \<notin> set ''semantic:'' \<and> CHR 0x0A \<notin> set ''  openai: m1'' \<and>
   CHR 0x0A \<notin> set ''  local: m2'' \<and> CHR 0x0A \<notin> set ''  local: m3'' \<and>
   is_section_header ''semantic:'' ''semantic'' \<and>
   \<not> is_entry ''  local: m3'' ''openai'' \<and>
   parse_yaml
     ''semantic:\<newline>  openai: m1\<newline>  local: m2\<newline>semantic:\<newline>  local: m3''
     = Inr \<lparr>own_props = [''semantic'' \<mapsto> [''local'' \<mapsto> ''m3'']], proto_obj = None\<rparr> \<and>
   entry \<lparr>own_props = [''semantic'' \<mapsto> [''local'' \<mapsto> ''m3'']], proto_obj = None\<rparr>
     ''semantic'' ''openai'' = None"
proof -
  let ?pre = "[''semantic:'', ''  openai: m1'', ''  local: m2'']"
  let ?post = "[''  local: m3'']"
  have h1: "\<forall>x \<in> set (?pre @ ''semantic:'' # ?post). CHR 0x0A \<notin> set x" by simp
  have h2: "is_section_header ''semantic:'' ''semantic''"
    by (simp add: is_section_header_def trim_def startsWith_def is_space_def)
  have h3: "\<forall>l \<in> set ?post. \<not> is_entry l ''openai''"
    by (simp add: is_entry_def trim_def startsWith_def is_space_def)
  have v: "parse_yaml
     ''semantic:\<newline>  openai: m1\<newline>  local: m2\<newline>semantic:\<newline>  local: m3''
     = Inr \<lparr>own_props = [''semantic'' \<mapsto> [''local'' \<mapsto> ''m3'']], proto_obj = None\<rparr>"
    by (simp add: parse_yaml_def parse_line_def trim_def startsWith_def is_space_def Let_def
          empty_cfg_def set_section_def set_entry_def)
  from repeated_header_resets_section[OF h1 h2, of env_no_file] h3 v
  have "entry \<lparr>own_props = [''semantic'' \<mapsto> [''local'' \<mapsto> ''m3'']], proto_obj = None\<rparr>
     ''semantic'' ''openai'' = None"
    by (auto simp: entry_def section_of_def)
  with h2 h3 v show ?thesis by simp
qed

text \<open>
  Claim C10. Every value stored in a mapping that \<open>parse_yaml\<close> produces is a string
  that is not empty, and \<open>get_model\<close> always returns a non-empty string. The first part
  holds (lemma \<open>parse_yaml_nonempty\<close>). The code breaks the second at names that a plain
  object inherits: with the defaults loaded, \<open>get_model("semantic", "constructor")\<close>
  returns the function \<open>Object\<close> and \<open>get_model("hasOwnProperty", "length")\<close> returns the
  number 1.
\<close>

theorem get_model_not_a_string:
  "fst (get_model env_no_file ''semantic'' ''constructor'' init_world) = Inr (JBuiltin ''Object'') \<and>
   fst (get_model env_no_file ''hasOwnProperty'' ''length'' init_world) = Inr (JNum 1)"
proof -
  have a: "fst (get_model env_no_file ''semantic'' ''constructor'' init_world)
             = Inr (JBuiltin ''Object'')"
    by (simp add: get_model_def load_no_file cfg_get_def chain_get_def defaults_semantic
          runtime_no_file node_object_prototype_def)
  have b: "fst (get_model env_no_file ''hasOwnProperty'' ''length'' init_world) = Inr (JNum 1)"
    by (simp add: get_model_def load_no_file cfg_get_def chain_get_def defaults_no_constructor
          runtime_no_file node_object_prototype_def node_get_property_def
          object_prototype_functions_def builtin_length_def)
  from a b show ?thesis by simp
qed

end
